theory Spec2Isabelle
  imports Complex_Main
begin

section \<open>Python values read by the middleware\<close>

text \<open>
  The middleware of \<^verbatim>\<open>scrapy_selenium/middlewares.py\<close> reads settings and request
  attributes whose Python type is not fixed: it tests them for truth, for \<^verbatim>\<open>None\<close>,
  for \<^verbatim>\<open>__iter__\<close>, for being a number, and takes their \<^verbatim>\<open>len\<close>.
  \<open>pyval\<close> holds the values these tests tell apart. \<open>PCallable\<close> is a function
  object (an expected condition handed to the driver's wait), named by a string;
  \<open>PItemsOnly\<close> is an object of a user class that offers \<^verbatim>\<open>items()\<close> and no
  \<^verbatim>\<open>__iter__\<close>. A dictionary keeps its insertion order, as Python's does.
\<close>

datatype pyval =
    PNone
  | PBool bool
  | PInt int
  | PFloat real
  | PStr string
  | PBytes "nat list"
  | PList "pyval list"
  | PDict "(pyval \<times> pyval) list"
  | PCallable string
  | PItemsOnly "(pyval \<times> pyval) list"

text \<open>Truth value of an object, as \<^verbatim>\<open>if(x)\<close> tests it.\<close>

fun truthy :: "pyval \<Rightarrow> bool" where
  "truthy PNone = False"
| "truthy (PBool b) = b"
| "truthy (PInt i) = (i \<noteq> 0)"
| "truthy (PFloat x) = (x \<noteq> 0)"
| "truthy (PStr s) = (s \<noteq> [])"
| "truthy (PBytes bs) = (bs \<noteq> [])"
| "truthy (PList xs) = (xs \<noteq> [])"
| "truthy (PDict kvs) = (kvs \<noteq> [])"
| "truthy (PCallable f) = True"
| "truthy (PItemsOnly kvs) = True"

text \<open>\<^verbatim>\<open>hasattr(x, "__iter__")\<close>: strings, bytes, lists and dictionaries have it.\<close>

fun hasattr_iter :: "pyval \<Rightarrow> bool" where
  "hasattr_iter (PStr s) = True"
| "hasattr_iter (PBytes bs) = True"
| "hasattr_iter (PList xs) = True"
| "hasattr_iter (PDict kvs) = True"
| "hasattr_iter v = False"

text \<open>
  The elements a \<^verbatim>\<open>for\<close> loop over the value visits: the characters of a string,
  the bytes of a bytes object, the elements of a list, the keys of a dictionary.
  It is used only on values that have \<^verbatim>\<open>__iter__\<close>.
\<close>

fun iter_elements :: "pyval \<Rightarrow> pyval list" where
  "iter_elements (PStr s) = map (\<lambda>c. PStr [c]) s"
| "iter_elements (PBytes bs) = map (\<lambda>b. PInt (int b)) bs"
| "iter_elements (PList xs) = xs"
| "iter_elements (PDict kvs) = map fst kvs"
| "iter_elements v = []"

text \<open>\<^verbatim>\<open>x.items()\<close>: the pairs of a mapping, or no such attribute.\<close>

fun py_items :: "pyval \<Rightarrow> (pyval \<times> pyval) list option" where
  "py_items (PDict kvs) = Some kvs"
| "py_items (PItemsOnly kvs) = Some kvs"
| "py_items v = None"

text \<open>\<^verbatim>\<open>len(x)\<close>: defined on the sized values only.\<close>

fun py_len :: "pyval \<Rightarrow> nat option" where
  "py_len (PStr s) = Some (length s)"
| "py_len (PBytes bs) = Some (length bs)"
| "py_len (PList xs) = Some (length xs)"
| "py_len (PDict kvs) = Some (length kvs)"
| "py_len v = None"

text \<open>\<^verbatim>\<open>isinstance(x, (int, float))\<close>; \<^verbatim>\<open>bool\<close> is a subclass of \<^verbatim>\<open>int\<close>.\<close>

fun isinstance_int_float :: "pyval \<Rightarrow> bool" where
  "isinstance_int_float (PBool b) = True"
| "isinstance_int_float (PInt i) = True"
| "isinstance_int_float (PFloat x) = True"
| "isinstance_int_float v = False"

section \<open>Exceptions\<close>

text \<open>
  \<open>NotConfigured\<close> and \<open>IgnoreRequest\<close> are the framework's, \<open>TimeoutError\<close> is
  the \<^verbatim>\<open>twisted.internet.error.TimeoutError\<close> built from the caught exception and a
  message, \<open>TimeoutException\<close> is the driver library's. \<open>AttributeError\<close> and
  \<open>TypeError\<close> are raised by the interpreter (the missing attribute, the failed
  operation). \<open>Raised\<close> is an exception of any other class, by its class name.
\<close>

datatype exn =
    NotConfigured string
  | IgnoreRequest exn
  | TimeoutError exn string
  | TimeoutException string
  | AttributeError string
  | TypeError string
  | Raised string

section \<open>Requests and responses\<close>

text \<open>
  A request of the framework carries \<open>url\<close>, \<open>cookies\<close> and \<open>meta\<close>; a
  \<^verbatim>\<open>SeleniumRequest\<close> adds the attributes \<^verbatim>\<open>process_request\<close> reads.
  \<^verbatim>\<open>isinstance(request, SeleniumRequest)\<close> is the constructor of \<open>any_request\<close>.
\<close>

record request =
  url :: pyval
  cookies :: pyval
  meta :: "string \<rightharpoonup> pyval"

record selenium_request = request +
  timeout :: pyval
  wait_time :: pyval
  wait_until :: pyval
  screenshot :: pyval
  script_dict_list :: pyval

datatype any_request = Request request | SeleniumRequest selenium_request

record response =
  browser_state :: pyval
  of_request :: selenium_request

section \<open>The driver and the world outside the middleware\<close>

text \<open>
  Everything the middleware does to the outside is an \<open>action\<close>: loading a driver
  class, building the options and the service, starting a driver, calling a method of a
  driver, connecting a signal handler. The \<open>world\<close> is the list of the actions
  performed so far, oldest first. What an action returns or raises is not decided by
  the middleware: it is given by an environment \<open>env\<close>, a function of the history
  and the action. A driver is named by the number of drivers started before it.
\<close>

type_synonym driver_id = nat

datatype driver_op =
    Set_page_load_timeout pyval
  | Add_cookie pyval
  | Get pyval
  | WebDriverWait_until pyval pyval
  | Get_screenshot_as_png
  | Handle_selenium_scripts pyval
  | Read_browser_state
  | Quit

record middleware =
  self_timeout :: pyval
  self_driver :: "driver_id option"

datatype handler = Bound_spider_closed middleware

datatype signal = Signal_spider_closed

datatype action =
    Import_class pyval string string
  | New_options
  | Set_binary_location pyval
  | Add_argument pyval
  | New_service pyval
  | New_driver
  | New_remote pyval
  | Call driver_id driver_op
  | Signals_connect handler signal

type_synonym world = "action list"

type_synonym env = "world \<Rightarrow> action \<Rightarrow> exn + pyval"

definition perform :: "env \<Rightarrow> action \<Rightarrow> world \<Rightarrow> (exn + pyval) \<times> world" where
  "perform env a w = (env w a, w @ [a])"

fun is_creation :: "action \<Rightarrow> bool" where
  "is_creation New_driver = True"
| "is_creation (New_remote ex) = True"
| "is_creation a = False"

definition drivers_created :: "world \<Rightarrow> nat" where
  "drivers_created w = length (filter is_creation w)"

section \<open>Constructing the middleware\<close>

text \<open>
  \<^verbatim>\<open>SeleniumMiddleware.__init__\<close>. Each \<^verbatim>\<open>import_module\<close> with the
  \<^verbatim>\<open>getattr\<close> that follows it is one action \<open>Import_class name module class\<close>,
  where \<open>name\<close> is the driver name put into the module path. The loop over
  \<^verbatim>\<open>driver_arguments\<close> stops at the first \<^verbatim>\<open>add_argument\<close> that raises.
\<close>

fun add_arguments :: "env \<Rightarrow> pyval list \<Rightarrow> world \<Rightarrow> (exn + pyval) \<times> world" where
  "add_arguments env [] w = (Inr PNone, w)"
| "add_arguments env (argument # rest) w =
     (case perform env (Add_argument argument) w of
        (Inl e, w') \<Rightarrow> (Inl e, w')
      | (Inr v, w') \<Rightarrow> add_arguments env rest w')"

text \<open>
  The branch for a locally installed driver, the branch for a remote driver, and the
  case where neither path is given: then no \<^verbatim>\<open>driver\<close> attribute is set.
\<close>

definition start_driver ::
  "env \<Rightarrow> pyval \<Rightarrow> pyval \<Rightarrow> pyval \<Rightarrow> pyval \<Rightarrow> world \<Rightarrow> (exn + middleware) \<times> world" where
  "start_driver env driver_name driver_executable_path command_executor tmo w =
     (if driver_executable_path \<noteq> PNone then
        (case perform env (Import_class driver_name ''service'' ''Service'') w of
           (Inl e, w1) \<Rightarrow> (Inl e, w1)
         | (Inr v1, w1) \<Rightarrow>
        (case perform env (New_service driver_executable_path) w1 of
           (Inl e, w2) \<Rightarrow> (Inl e, w2)
         | (Inr v2, w2) \<Rightarrow>
        (case perform env New_driver w2 of
           (Inl e, w3) \<Rightarrow> (Inl e, w3)
         | (Inr v3, w3) \<Rightarrow>
             (Inr \<lparr>self_timeout = tmo, self_driver = Some (drivers_created w2)\<rparr>, w3))))
      else if command_executor \<noteq> PNone then
        (case perform env (New_remote command_executor) w of
           (Inl e, w1) \<Rightarrow> (Inl e, w1)
         | (Inr v1, w1) \<Rightarrow>
             (Inr \<lparr>self_timeout = tmo, self_driver = Some (drivers_created w)\<rparr>, w1))
      else (Inr \<lparr>self_timeout = tmo, self_driver = None\<rparr>, w))"

definition init ::
  "env \<Rightarrow> pyval \<Rightarrow> pyval \<Rightarrow> pyval \<Rightarrow> pyval \<Rightarrow> pyval \<Rightarrow> pyval \<Rightarrow> world
     \<Rightarrow> (exn + middleware) \<times> world" where
  "init env driver_name driver_executable_path browser_executable_path command_executor
       driver_arguments tmo w =
     (case perform env (Import_class driver_name ''webdriver'' ''WebDriver'') w of
        (Inl e, w1) \<Rightarrow> (Inl e, w1)
      | (Inr v1, w1) \<Rightarrow>
     (case perform env (Import_class driver_name ''options'' ''Options'') w1 of
        (Inl e, w2) \<Rightarrow> (Inl e, w2)
      | (Inr v2, w2) \<Rightarrow>
     (case perform env New_options w2 of
        (Inl e, w3) \<Rightarrow> (Inl e, w3)
      | (Inr v3, w3) \<Rightarrow>
     (case (if truthy browser_executable_path
            then perform env (Set_binary_location browser_executable_path) w3
            else (Inr PNone, w3)) of
        (Inl e, w4) \<Rightarrow> (Inl e, w4)
      | (Inr v4, w4) \<Rightarrow>
     (case (if hasattr_iter driver_arguments
            then add_arguments env (iter_elements driver_arguments) w4
            else (Inl (TypeError ''object is not iterable''), w4)) of
        (Inl e, w5) \<Rightarrow> (Inl e, w5)
      | (Inr v5, w5) \<Rightarrow>
          start_driver env driver_name driver_executable_path command_executor tmo w5)))))"

text \<open>
  The crawler, as \<^verbatim>\<open>from_crawler\<close> uses it: \<^verbatim>\<open>settings.get\<close> gives
  \<^verbatim>\<open>None\<close> for a setting that is not set, \<^verbatim>\<open>settings.getfloat\<close> returns a float or
  raises on a value that is no number.
\<close>

record crawler =
  settings_get :: "string \<Rightarrow> pyval"
  settings_getfloat :: "string \<Rightarrow> exn + pyval"

definition from_crawler :: "env \<Rightarrow> crawler \<Rightarrow> world \<Rightarrow> (exn + middleware) \<times> world" where
  "from_crawler env crawler w =
     (let driver_name = settings_get crawler ''SELENIUM_DRIVER_NAME'';
          driver_executable_path = settings_get crawler ''SELENIUM_DRIVER_EXECUTABLE_PATH'';
          browser_executable_path = settings_get crawler ''SELENIUM_BROWSER_EXECUTABLE_PATH'';
          command_executor = settings_get crawler ''SELENIUM_COMMAND_EXECUTOR'';
          driver_arguments = settings_get crawler ''SELENIUM_DRIVER_ARGUMENTS''
      in case settings_getfloat crawler ''DOWNLOAD_TIMEOUT'' of
           Inl e \<Rightarrow> (Inl e, w)
         | Inr tmo \<Rightarrow>
             if driver_name = PNone
             then (Inl (NotConfigured ''SELENIUM_DRIVER_NAME must be set''), w)
             else if driver_executable_path = PNone \<and> command_executor = PNone
             then (Inl (NotConfigured
                     ''Either SELENIUM_DRIVER_EXECUTABLE_PATH or SELENIUM_COMMAND_EXECUTOR must be set''), w)
             else (case init env driver_name driver_executable_path browser_executable_path
                          command_executor driver_arguments tmo w of
                     (Inl e, w') \<Rightarrow> (Inl e, w')
                   | (Inr m, w') \<Rightarrow>
                       (Inr m, w' @ [Signals_connect (Bound_spider_closed m) Signal_spider_closed])))"

text \<open>The two tests of \<^verbatim>\<open>from_crawler\<close> (lines 91 and 94), as one predicate.\<close>

definition not_configured :: "crawler \<Rightarrow> bool" where
  "not_configured crawler \<longleftrightarrow>
     settings_get crawler ''SELENIUM_DRIVER_NAME'' = PNone \<or>
     (settings_get crawler ''SELENIUM_DRIVER_EXECUTABLE_PATH'' = PNone \<and>
      settings_get crawler ''SELENIUM_COMMAND_EXECUTOR'' = PNone)"

section \<open>Processing a request\<close>

text \<open>
  \<^verbatim>\<open>self.driver.op(...)\<close>: reading an attribute that \<^verbatim>\<open>__init__\<close> did not set
  raises \<^verbatim>\<open>AttributeError\<close>; otherwise the call is an action on that driver.
\<close>

definition driver_call :: "env \<Rightarrow> middleware \<Rightarrow> driver_op \<Rightarrow> world \<Rightarrow> (exn + pyval) \<times> world" where
  "driver_call env self op w =
     (case self_driver self of
        None \<Rightarrow> (Inl (AttributeError ''driver''), w)
      | Some d \<Rightarrow> perform env (Call d op) w)"

text \<open>Lines 119 to 124: the request's timeout, else the middleware's, else 30.\<close>

definition page_load_timeout :: "middleware \<Rightarrow> selenium_request \<Rightarrow> pyval" where
  "page_load_timeout self r =
     (let t = timeout r;
          t = (if t = PNone then self_timeout self else t)
      in if \<not> isinstance_int_float t then PInt 30 else t)"

fun add_cookies :: "env \<Rightarrow> middleware \<Rightarrow> pyval list \<Rightarrow> world \<Rightarrow> (exn + pyval) \<times> world" where
  "add_cookies env self [] w = (Inr PNone, w)"
| "add_cookies env self (cookie # rest) w =
     (case driver_call env self (Add_cookie cookie) w of
        (Inl e, w') \<Rightarrow> (Inl e, w')
      | (Inr v, w') \<Rightarrow> add_cookies env self rest w')"

text \<open>
  Lines 129 to 141. The first branch passes each element of the iteration to
  \<^verbatim>\<open>add_cookie\<close>; the second wraps each pair of \<^verbatim>\<open>items()\<close>.
\<close>

definition name_value_cookie :: "pyval \<times> pyval \<Rightarrow> pyval" where
  "name_value_cookie kv = PDict [(PStr ''name'', fst kv), (PStr ''value'', snd kv)]"

definition inject_cookies :: "env \<Rightarrow> middleware \<Rightarrow> selenium_request \<Rightarrow> world \<Rightarrow> (exn + pyval) \<times> world" where
  "inject_cookies env self r w =
     (if hasattr_iter (cookies r)
      then add_cookies env self (iter_elements (cookies r)) w
      else (case py_items (cookies r) of
              None \<Rightarrow> (Inl (AttributeError ''items''), w)
            | Some kvs \<Rightarrow> add_cookies env self (map name_value_cookie kvs) w))"

text \<open>Lines 144 to 147: the one \<^verbatim>\<open>try\<close> of the method.\<close>

definition navigate :: "env \<Rightarrow> middleware \<Rightarrow> selenium_request \<Rightarrow> world \<Rightarrow> (exn + pyval) \<times> world" where
  "navigate env self r w =
     (case driver_call env self (Get (url r)) w of
        (Inl (TimeoutException m), w') \<Rightarrow>
          (Inl (IgnoreRequest (TimeoutError (TimeoutException m)
                  ''scrapy-selenium : request timeout'')), w')
      | (Inl e, w') \<Rightarrow> (Inl e, w')
      | (Inr v, w') \<Rightarrow> (Inr v, w'))"

text \<open>
  Lines 150 to 153: \<^verbatim>\<open>WebDriverWait(self.driver, request.wait_time).until(request.wait_until)\<close>
  is one call into the driver library, with the two values it is given.
\<close>

definition wait_step :: "env \<Rightarrow> middleware \<Rightarrow> selenium_request \<Rightarrow> world \<Rightarrow> (exn + pyval) \<times> world" where
  "wait_step env self r w =
     (if truthy (wait_until r)
      then driver_call env self (WebDriverWait_until (wait_time r) (wait_until r)) w
      else (Inr PNone, w))"

text \<open>Lines 155 and 156: the right-hand side is evaluated, then stored in the meta.\<close>

definition screenshot_step ::
  "env \<Rightarrow> middleware \<Rightarrow> selenium_request \<Rightarrow> world \<Rightarrow> (exn + selenium_request) \<times> world" where
  "screenshot_step env self r w =
     (if truthy (screenshot r)
      then (case driver_call env self Get_screenshot_as_png w of
              (Inl e, w') \<Rightarrow> (Inl e, w')
            | (Inr png, w') \<Rightarrow> (Inr (r\<lparr>meta := (meta r)(''screenshot'' \<mapsto> png)\<rparr>), w'))
      else (Inr r, w))"

text \<open>
  Modelled from the spec: \<^verbatim>\<open>SeleniumUtilities.handle_selenium_scripts\<close> is not
  among the sources. The spec names script execution as one of the driver operations a
  request is translated into: the scripts of the request are handed to the driver.
\<close>

definition handle_selenium_scripts :: "env \<Rightarrow> driver_id \<Rightarrow> pyval \<Rightarrow> world \<Rightarrow> (exn + pyval) \<times> world" where
  "handle_selenium_scripts env d scripts w = perform env (Call d (Handle_selenium_scripts scripts)) w"

text \<open>
  Modelled from the spec: \<^verbatim>\<open>SeleniumUtilities.generate_scrapy_response\<close> is not
  among the sources. The spec says that the resulting browser state is translated back
  into a response object: the state is read from the driver and a response is built
  from it, for the request.
\<close>

definition generate_scrapy_response ::
  "env \<Rightarrow> driver_id \<Rightarrow> selenium_request \<Rightarrow> world \<Rightarrow> (exn + response) \<times> world" where
  "generate_scrapy_response env d r w =
     (case perform env (Call d Read_browser_state) w of
        (Inl e, w') \<Rightarrow> (Inl e, w')
      | (Inr st, w') \<Rightarrow> (Inr \<lparr>browser_state = st, of_request = r\<rparr>, w'))"

text \<open>
  Lines 158 and 159: \<^verbatim>\<open>request.script_dict_list and len(request.script_dict_list)\<close>
  takes the length only of a true value, and \<^verbatim>\<open>len\<close> raises on a value without one.
\<close>

definition scripts_step :: "env \<Rightarrow> middleware \<Rightarrow> selenium_request \<Rightarrow> world \<Rightarrow> (exn + pyval) \<times> world" where
  "scripts_step env self r w =
     (if \<not> truthy (script_dict_list r) then (Inr PNone, w)
      else (case py_len (script_dict_list r) of
              None \<Rightarrow> (Inl (TypeError ''len''), w)
            | Some n \<Rightarrow>
                if n \<noteq> 0
                then (case self_driver self of
                        None \<Rightarrow> (Inl (AttributeError ''driver''), w)
                      | Some d \<Rightarrow> handle_selenium_scripts env d (script_dict_list r) w)
                else (Inr PNone, w)))"

definition response_step ::
  "env \<Rightarrow> middleware \<Rightarrow> selenium_request \<Rightarrow> world \<Rightarrow> (exn + response) \<times> world" where
  "response_step env self r w =
     (case self_driver self of
        None \<Rightarrow> (Inl (AttributeError ''driver''), w)
      | Some d \<Rightarrow> generate_scrapy_response env d r w)"

text \<open>
  \<^verbatim>\<open>process_request\<close>. The result is what the method returns (\<open>None\<close> is Python's
  \<^verbatim>\<open>None\<close>) or raises, the request as the method leaves it, and the world.
\<close>

definition process_selenium_request ::
  "env \<Rightarrow> middleware \<Rightarrow> selenium_request \<Rightarrow> world
     \<Rightarrow> (exn + response option) \<times> selenium_request \<times> world" where
  "process_selenium_request env self r w =
     (case driver_call env self (Set_page_load_timeout (page_load_timeout self r)) w of
        (Inl e, w1) \<Rightarrow> (Inl e, r, w1)
      | (Inr v1, w1) \<Rightarrow>
     (case inject_cookies env self r w1 of
        (Inl e, w2) \<Rightarrow> (Inl e, r, w2)
      | (Inr v2, w2) \<Rightarrow>
     (case navigate env self r w2 of
        (Inl e, w3) \<Rightarrow> (Inl e, r, w3)
      | (Inr v3, w3) \<Rightarrow>
     (case wait_step env self r w3 of
        (Inl e, w4) \<Rightarrow> (Inl e, r, w4)
      | (Inr v4, w4) \<Rightarrow>
     (case screenshot_step env self r w4 of
        (Inl e, w5) \<Rightarrow> (Inl e, r, w5)
      | (Inr r', w5) \<Rightarrow>
     (case scripts_step env self r' w5 of
        (Inl e, w6) \<Rightarrow> (Inl e, r', w6)
      | (Inr v6, w6) \<Rightarrow>
     (case response_step env self r' w6 of
        (Inl e, w7) \<Rightarrow> (Inl e, r', w7)
      | (Inr resp, w7) \<Rightarrow> (Inr (Some resp), r', w7))))))))"

definition process_request ::
  "env \<Rightarrow> middleware \<Rightarrow> any_request \<Rightarrow> world \<Rightarrow> (exn + response option) \<times> any_request \<times> world" where
  "process_request env self q w =
     (case q of
        Request r \<Rightarrow> (Inr None, Request r, w)
      | SeleniumRequest r \<Rightarrow>
          (case process_selenium_request env self r w of
             (res, r', w') \<Rightarrow> (res, SeleniumRequest r', w')))"

text \<open>\<^verbatim>\<open>spider_closed\<close>: one call, \<^verbatim>\<open>self.driver.quit()\<close>.\<close>

definition spider_closed :: "env \<Rightarrow> middleware \<Rightarrow> world \<Rightarrow> (exn + pyval) \<times> world" where
  "spider_closed env self w = driver_call env self Quit w"

section \<open>Runs of a driver\<close>

text \<open>
  \<open>exec\<close> calls a list of operations on one driver, in order, and stops at the first
  that raises. It is the yardstick for \<^verbatim>\<open>process_request\<close>: the lemmas below show
  that the method performs the operations of \<open>attempted_ops\<close>, in that order, and
  nothing else.
\<close>

fun exec :: "env \<Rightarrow> driver_id \<Rightarrow> driver_op list \<Rightarrow> world \<Rightarrow> exn option \<times> world" where
  "exec env d [] w = (None, w)"
| "exec env d (op # ops) w =
     (case env w (Call d op) of
        Inl e \<Rightarrow> (Some e, w @ [Call d op])
      | Inr v \<Rightarrow> exec env d ops (w @ [Call d op]))"

fun is_get :: "action \<Rightarrow> bool" where
  "is_get (Call d (Get u)) = True"
| "is_get a = False"

text \<open>
  What the cookie loop passes to \<^verbatim>\<open>add_cookie\<close>, or \<open>None\<close> when the value has
  neither \<^verbatim>\<open>__iter__\<close> nor \<^verbatim>\<open>items\<close>.
\<close>

definition cookie_arguments :: "pyval \<Rightarrow> pyval list option" where
  "cookie_arguments c =
     (if hasattr_iter c then Some (iter_elements c) else map_option (map name_value_cookie) (py_items c))"

definition wait_ops :: "selenium_request \<Rightarrow> driver_op list" where
  "wait_ops r = (if truthy (wait_until r) then [WebDriverWait_until (wait_time r) (wait_until r)] else [])"

definition screenshot_ops :: "selenium_request \<Rightarrow> driver_op list" where
  "screenshot_ops r = (if truthy (screenshot r) then [Get_screenshot_as_png] else [])"

text \<open>The script operations, or \<open>None\<close> when \<^verbatim>\<open>len\<close> raises on the attribute.\<close>

definition scripts_ops :: "selenium_request \<Rightarrow> driver_op list option" where
  "scripts_ops r =
     (if \<not> truthy (script_dict_list r) then Some []
      else (case py_len (script_dict_list r) of
              None \<Rightarrow> None
            | Some n \<Rightarrow> Some (if n \<noteq> 0 then [Handle_selenium_scripts (script_dict_list r)] else [])))"

text \<open>
  The operations a \<^verbatim>\<open>SeleniumRequest\<close> is translated into, in the order of the
  statements of \<^verbatim>\<open>process_request\<close>. The list ends early where the interpreter
  raises on an attribute of the request.
\<close>

definition attempted_ops :: "middleware \<Rightarrow> selenium_request \<Rightarrow> driver_op list" where
  "attempted_ops self r =
     Set_page_load_timeout (page_load_timeout self r) #
     (case cookie_arguments (cookies r) of
        None \<Rightarrow> []
      | Some cs \<Rightarrow>
          map Add_cookie cs @ Get (url r) # wait_ops r @ screenshot_ops r @
          (case scripts_ops r of None \<Rightarrow> [] | Some ss \<Rightarrow> ss @ [Read_browser_state]))"

text \<open>The \<^verbatim>\<open>except TimeoutException\<close> clause, as a function on exceptions.\<close>

definition remap :: "exn \<Rightarrow> exn" where
  "remap e = (case e of TimeoutException m \<Rightarrow>
      IgnoreRequest (TimeoutError (TimeoutException m) ''scrapy-selenium : request timeout'') | _ \<Rightarrow> e)"

text \<open>
  The outcome of \<^verbatim>\<open>process_request\<close> on a \<^verbatim>\<open>SeleniumRequest\<close>, in terms of
  \<open>exec\<close>: an operation raised (and the exception is remapped if that operation was
  the navigation), or the interpreter raised, or the response is returned.
\<close>

definition outcome_ok ::
  "env \<Rightarrow> driver_id \<Rightarrow> middleware \<Rightarrow> selenium_request \<Rightarrow> world \<Rightarrow>
     (exn + response option) \<Rightarrow> selenium_request \<Rightarrow> world \<Rightarrow> bool" where
  "outcome_ok env d self r w res r' w' \<longleftrightarrow>
     (\<exists>e0. exec env d (attempted_ops self r) w = (Some e0, w') \<and>
            res = Inl (if is_get (last w') then remap e0 else e0))
       \<or> (exec env d (attempted_ops self r) w = (None, w') \<and>
            (res = Inl (AttributeError ''items'') \<and> cookie_arguments (cookies r) = None
             \<or> res = Inl (TypeError ''len'') \<and> cookie_arguments (cookies r) \<noteq> None \<and> scripts_ops r = None
             \<or> (\<exists>st. res = Inr (Some \<lparr>browser_state = st, of_request = r'\<rparr>) \<and>
                  env (butlast w') (Call d Read_browser_state) = Inr st \<and>
                  cookie_arguments (cookies r) \<noteq> None \<and> scripts_ops r \<noteq> None)))"

section \<open>Kinds of action and their order\<close>

fun is_wait :: "action \<Rightarrow> bool" where
  "is_wait (Call d (WebDriverWait_until t c)) = True"
| "is_wait a = False"

fun is_screenshot :: "action \<Rightarrow> bool" where
  "is_screenshot (Call d Get_screenshot_as_png) = True"
| "is_screenshot a = False"

fun is_quit :: "action \<Rightarrow> bool" where
  "is_quit (Call d Quit) = True"
| "is_quit a = False"


fun on_driver :: "driver_id \<Rightarrow> action \<Rightarrow> bool" where
  "on_driver d (Call d' op) = (d' = d)"
| "on_driver d a = False"

text \<open>
  The place of an operation in the body of \<^verbatim>\<open>process_request\<close>, by the line that
  performs it: the page-load timeout (line 125), the cookies (131 and 136), the
  navigation (145), the wait (151), the screenshot (156), the scripts (159), the
  response (161).
\<close>

fun code_order_rank :: "action \<Rightarrow> nat" where
  "code_order_rank (Call d (Set_page_load_timeout t)) = 0"
| "code_order_rank (Call d (Add_cookie c)) = 1"
| "code_order_rank (Call d (Get u)) = 2"
| "code_order_rank (Call d (WebDriverWait_until t c)) = 3"
| "code_order_rank (Call d Get_screenshot_as_png) = 4"
| "code_order_rank (Call d (Handle_selenium_scripts ss)) = 5"
| "code_order_rank (Call d Read_browser_state) = 6"
| "code_order_rank a = 7"

text \<open>
  The order in which the specification lists the operations: navigation, cookie
  injection, wait conditions, script execution, screenshot capture. This definition
  follows the words of the specification, not the code; operations the list does not
  name have no rank.
\<close>

fun spec_order_rank :: "action \<Rightarrow> nat option" where
  "spec_order_rank (Call d (Get u)) = Some 0"
| "spec_order_rank (Call d (Add_cookie c)) = Some 1"
| "spec_order_rank (Call d (WebDriverWait_until t c)) = Some 2"
| "spec_order_rank (Call d (Handle_selenium_scripts ss)) = Some 3"
| "spec_order_rank (Call d Get_screenshot_as_png) = Some 4"
| "spec_order_rank a = None"

definition in_spec_order :: "world \<Rightarrow> bool" where
  "in_spec_order ops = sorted (List.map_filter spec_order_rank ops)"

text \<open>The values handed to \<^verbatim>\<open>add_cookie\<close> in a list of actions, in order.\<close>

fun passed_cookies :: "world \<Rightarrow> pyval list" where
  "passed_cookies [] = []"
| "passed_cookies (Call d (Add_cookie c) # w) = c # passed_cookies w"
| "passed_cookies (a # w) = passed_cookies w"

text \<open>The actions of \<^verbatim>\<open>__init__\<close> that come before the driver is started.\<close>

fun is_setup :: "action \<Rightarrow> bool" where
  "is_setup (Import_class n m c) = True"
| "is_setup New_options = True"
| "is_setup (Set_binary_location b) = True"
| "is_setup (Add_argument x) = True"
| "is_setup (New_service p) = True"
| "is_setup a = False"

text \<open>
  A stretch of a run: the world grows by actions that satisfy \<open>P\<close>, and an exception
  of the stretch is the one the last action raised, or (where \<open>b\<close> allows it) the
  \<^verbatim>\<open>TypeError\<close> of a loop over a value that cannot be iterated.
\<close>

definition stretch :: "(action \<Rightarrow> bool) \<Rightarrow> bool \<Rightarrow> env \<Rightarrow> world \<Rightarrow> (exn + 'a) \<Rightarrow> world \<Rightarrow> bool" where
  "stretch P b env w res w' \<longleftrightarrow>
     (\<exists>ops. w' = w @ ops \<and> list_all P ops \<and>
        (\<forall>e. res = Inl e \<longrightarrow>
           (b \<and> e = TypeError ''object is not iterable'') \<or>
           (ops \<noteq> [] \<and> env (butlast w') (last w') = Inl e)))"

section \<open>The life of a middleware\<close>

text \<open>
  After \<^verbatim>\<open>from_crawler\<close> the framework calls the two methods of the instance, in
  some sequence: \<^verbatim>\<open>process_request\<close> for each request, \<^verbatim>\<open>spider_closed\<close> when
  the signal is sent. An exception of a call is handled by the framework, and the
  next call follows. \<open>run_calls\<close> gives the world after such a sequence.
\<close>

datatype method_call = Call_process_request any_request | Call_spider_closed

fun is_spider_closed :: "method_call \<Rightarrow> bool" where
  "is_spider_closed Call_spider_closed = True"
| "is_spider_closed c = False"

fun run_calls :: "env \<Rightarrow> middleware \<Rightarrow> method_call list \<Rightarrow> world \<Rightarrow> world" where
  "run_calls env self [] w = w"
| "run_calls env self (Call_process_request q # calls) w =
     run_calls env self calls (snd (snd (process_request env self q w)))"
| "run_calls env self (Call_spider_closed # calls) w =
     run_calls env self calls (snd (spider_closed env self w))"

text \<open>
  The reading of the specification's word lazily: a driver exists only once a call
  that uses the driver has been made. This definition follows the words of the
  specification, not the code.
\<close>

fun uses_driver :: "method_call \<Rightarrow> bool" where
  "uses_driver (Call_process_request (SeleniumRequest r)) = True"
| "uses_driver (Call_process_request (Request r)) = False"
| "uses_driver Call_spider_closed = True"

definition spec_created_lazily :: "method_call list \<Rightarrow> world \<Rightarrow> bool" where
  "spec_created_lazily calls w \<longleftrightarrow> list_ex uses_driver calls \<or> drivers_created w = 0"

section \<open>Concrete inputs\<close>

text \<open>
  An environment in which every action returns: the screenshot is four bytes, the
  browser state is a page source.
\<close>

definition example_env :: env where
  "example_env w a =
     (case a of
        Call d Get_screenshot_as_png \<Rightarrow> Inr (PBytes [137, 80, 78, 71])
      | Call d Read_browser_state \<Rightarrow> Inr (PStr ''<html></html>'')
      | _ \<Rightarrow> Inr PNone)"

text \<open>An environment in which every navigation times out.\<close>

definition timeout_env :: env where
  "timeout_env w a =
     (case a of
        Call d (Get u) \<Rightarrow> Inl (TimeoutException ''page load'')
      | _ \<Rightarrow> Inr PNone)"


definition example_middleware :: middleware where
  "example_middleware = \<lparr>self_timeout = PFloat 180, self_driver = Some 0\<rparr>"

definition example_request :: selenium_request where
  "example_request =
     \<lparr>url = PStr ''http://a.test/'',
      cookies = PList [PDict [(PStr ''name'', PStr ''k''), (PStr ''value'', PStr ''v'')]],
      meta = Map.empty,
      timeout = PNone,
      wait_time = PInt 10,
      wait_until = PCallable ''title_is'',
      screenshot = PBool True,
      script_dict_list = PList [PDict [(PStr ''script'', PStr ''window.scrollTo(0, 0)'')]]\<rparr>"

text \<open>The same request with its cookies given as a dictionary.\<close>

definition dict_cookie_request :: selenium_request where
  "dict_cookie_request =
     example_request\<lparr>cookies := PDict [(PStr ''session'', PStr ''abc''), (PStr ''lang'', PStr ''en'')]\<rparr>"

text \<open>A plain request, with no wait, screenshot or script.\<close>

definition plain_selenium_request :: selenium_request where
  "plain_selenium_request =
     \<lparr>url = PStr ''http://a.test/'', cookies = PDict [], meta = Map.empty, timeout = PInt 5,
      wait_time = PNone, wait_until = PNone, screenshot = PBool False,
      script_dict_list = PNone\<rparr>"

definition example_crawler :: crawler where
  "example_crawler =
     \<lparr>settings_get = (\<lambda>k.
        if k = ''SELENIUM_DRIVER_NAME'' then PStr ''firefox''
        else if k = ''SELENIUM_DRIVER_EXECUTABLE_PATH'' then PStr ''/usr/bin/geckodriver''
        else if k = ''SELENIUM_DRIVER_ARGUMENTS'' then PList [PStr ''-headless'']
        else PNone),
      settings_getfloat = (\<lambda>k. Inr (PFloat 180))\<rparr>"

text \<open>The world after \<^verbatim>\<open>from_crawler\<close> with these settings, from an empty world.\<close>

definition example_world :: world where
  "example_world =
     [Import_class (PStr ''firefox'') ''webdriver'' ''WebDriver'',
      Import_class (PStr ''firefox'') ''options'' ''Options'',
      New_options,
      Add_argument (PStr ''-headless''),
      Import_class (PStr ''firefox'') ''service'' ''Service'',
      New_service (PStr ''/usr/bin/geckodriver''),
      New_driver,
      Signals_connect (Bound_spider_closed example_middleware) Signal_spider_closed]"

text \<open>The same settings without \<^verbatim>\<open>SELENIUM_DRIVER_ARGUMENTS\<close>.\<close>

definition no_arguments_crawler :: crawler where
  "no_arguments_crawler =
     \<lparr>settings_get = (\<lambda>k.
        if k = ''SELENIUM_DRIVER_NAME'' then PStr ''firefox''
        else if k = ''SELENIUM_DRIVER_EXECUTABLE_PATH'' then PStr ''/usr/bin/geckodriver''
        else PNone),
      settings_getfloat = (\<lambda>k. Inr (PFloat 180))\<rparr>"


section \<open>Lemmas on runs\<close>

lemma exec_append:
  "exec env d (xs @ ys) w =
     (case exec env d xs w of (Some e, w') \<Rightarrow> (Some e, w') | (None, w') \<Rightarrow> exec env d ys w')"
  by (induction xs arbitrary: w) (auto split: sum.splits)

lemma driver_call_Inr:
  "self_driver self = Some d \<Longrightarrow> driver_call env self op w = (Inr v, w') \<Longrightarrow>
     exec env d [op] w = (None, w')"
  by (auto simp: driver_call_def perform_def)

lemma driver_call_Inl:
  "self_driver self = Some d \<Longrightarrow> driver_call env self op w = (Inl e, w') \<Longrightarrow>
     exec env d [op] w = (Some e, w')"
  by (auto simp: driver_call_def perform_def)

lemma add_cookies_Inr:
  "self_driver self = Some d \<Longrightarrow> add_cookies env self cs w = (Inr v, w') \<Longrightarrow>
     exec env d (map Add_cookie cs) w = (None, w')"
  by (induction cs arbitrary: w) (auto simp: driver_call_def perform_def split: sum.splits)

lemma add_cookies_Inl:
  "self_driver self = Some d \<Longrightarrow> add_cookies env self cs w = (Inl e, w') \<Longrightarrow>
     exec env d (map Add_cookie cs) w = (Some e, w')"
  by (induction cs arbitrary: w) (auto simp: driver_call_def perform_def split: sum.splits)

lemma inject_cookies_Inr:
  "self_driver self = Some d \<Longrightarrow> inject_cookies env self r w = (Inr v, w') \<Longrightarrow>
     \<exists>cs. cookie_arguments (cookies r) = Some cs \<and> exec env d (map Add_cookie cs) w = (None, w')"
  by (auto simp: inject_cookies_def cookie_arguments_def dest: add_cookies_Inr
      split: if_splits option.splits)

lemma inject_cookies_Inl:
  "self_driver self = Some d \<Longrightarrow> inject_cookies env self r w = (Inl e, w') \<Longrightarrow>
     (cookie_arguments (cookies r) = None \<and> w' = w \<and> e = AttributeError ''items'') \<or>
     (\<exists>cs. cookie_arguments (cookies r) = Some cs \<and> exec env d (map Add_cookie cs) w = (Some e, w'))"
  by (auto simp: inject_cookies_def cookie_arguments_def dest: add_cookies_Inl
      split: if_splits option.splits)

lemma navigate_Inr:
  "self_driver self = Some d \<Longrightarrow> navigate env self r w = (Inr v, w') \<Longrightarrow>
     exec env d [Get (url r)] w = (None, w')"
  by (auto simp: navigate_def driver_call_def perform_def split: sum.splits exn.splits)

lemma navigate_Inl:
  "self_driver self = Some d \<Longrightarrow> navigate env self r w = (Inl e, w') \<Longrightarrow>
     \<exists>e0. exec env d [Get (url r)] w = (Some e0, w') \<and> e = remap e0"
  by (auto simp: navigate_def driver_call_def perform_def remap_def split: sum.splits exn.splits)

lemma wait_step_Inr:
  "self_driver self = Some d \<Longrightarrow> wait_step env self r w = (Inr v, w') \<Longrightarrow>
     exec env d (wait_ops r) w = (None, w')"
  by (auto simp: wait_step_def wait_ops_def driver_call_def perform_def split: if_splits)

lemma wait_step_Inl:
  "self_driver self = Some d \<Longrightarrow> wait_step env self r w = (Inl e, w') \<Longrightarrow>
     exec env d (wait_ops r) w = (Some e, w')"
  by (auto simp: wait_step_def wait_ops_def driver_call_def perform_def split: if_splits)

lemma screenshot_step_Inr:
  "self_driver self = Some d \<Longrightarrow> screenshot_step env self r w = (Inr r', w') \<Longrightarrow>
     exec env d (screenshot_ops r) w = (None, w') \<and> script_dict_list r' = script_dict_list r"
  by (auto simp: screenshot_step_def screenshot_ops_def driver_call_def perform_def
      split: if_splits sum.splits)

lemma screenshot_step_Inl:
  "self_driver self = Some d \<Longrightarrow> screenshot_step env self r w = (Inl e, w') \<Longrightarrow>
     exec env d (screenshot_ops r) w = (Some e, w')"
  by (auto simp: screenshot_step_def screenshot_ops_def driver_call_def perform_def
      split: if_splits sum.splits)

lemma scripts_step_Inr:
  "self_driver self = Some d \<Longrightarrow> scripts_step env self r w = (Inr v, w') \<Longrightarrow>
     \<exists>ss. scripts_ops r = Some ss \<and> exec env d ss w = (None, w')"
  by (auto simp: scripts_step_def scripts_ops_def handle_selenium_scripts_def perform_def
      split: if_splits option.splits)

lemma scripts_step_Inl:
  "self_driver self = Some d \<Longrightarrow> scripts_step env self r w = (Inl e, w') \<Longrightarrow>
     (scripts_ops r = None \<and> w' = w \<and> e = TypeError ''len'') \<or>
     (\<exists>ss. scripts_ops r = Some ss \<and> exec env d ss w = (Some e, w'))"
  by (auto simp: scripts_step_def scripts_ops_def handle_selenium_scripts_def perform_def
      split: if_splits option.splits)

lemma response_step_Inr:
  "self_driver self = Some d \<Longrightarrow> response_step env self r w = (Inr resp, w') \<Longrightarrow>
     exec env d [Read_browser_state] w = (None, w') \<and>
     (\<exists>st. env w (Call d Read_browser_state) = Inr st \<and> resp = \<lparr>browser_state = st, of_request = r\<rparr>)"
  by (auto simp: response_step_def generate_scrapy_response_def perform_def split: sum.splits)

lemma response_step_Inl:
  "self_driver self = Some d \<Longrightarrow> response_step env self r w = (Inl e, w') \<Longrightarrow>
     exec env d [Read_browser_state] w = (Some e, w')"
  by (auto simp: response_step_def generate_scrapy_response_def perform_def split: sum.splits)

lemma exec_Some_last:
  "exec env d ops w = (Some e, w') \<Longrightarrow> last w' \<in> Call d ` set ops"
  by (induction ops arbitrary: w) (auto split: sum.splits)

lemma exec_Some_raised:
  "exec env d ops w = (Some e, w') \<Longrightarrow> w' \<noteq> [] \<and> env (butlast w') (last w') = Inl e"
  by (induction ops arbitrary: w) (auto split: sum.splits)

lemma exec_None: "exec env d ops w = (None, w') \<Longrightarrow> w' = w @ map (Call d) ops"
  by (induction ops arbitrary: w) (fastforce split: sum.splits)+

lemma exec_seq_None:
  "exec env d xs w = (None, w1) \<Longrightarrow> exec env d ys w1 = R \<Longrightarrow> exec env d (xs @ ys) w = R"
  by (simp add: exec_append)

lemma exec_seq_Some:
  "exec env d xs w = (Some e, w1) \<Longrightarrow> exec env d (xs @ ys) w = (Some e, w1)"
  by (simp add: exec_append)

lemma exec_world: "\<exists>n\<le>length ops. snd (exec env d ops w) = w @ map (Call d) (take n ops)"
proof (induction ops arbitrary: w)
  case Nil
  then show ?case by simp
next
  case (Cons op ops)
  show ?case
  proof (cases "env w (Call d op)")
    case (Inl e)
    then have "snd (exec env d (op # ops) w) = w @ map (Call d) (take 1 (op # ops))" by simp
    then show ?thesis by (metis One_nat_def Suc_leI length_Cons zero_less_Suc)
  next
    case (Inr v)
    from Cons.IH [of "w @ [Call d op]"] obtain n where
      n: "n \<le> length ops" "snd (exec env d ops (w @ [Call d op])) = (w @ [Call d op]) @ map (Call d) (take n ops)"
      by blast
    with Inr have "snd (exec env d (op # ops) w) = w @ map (Call d) (take (Suc n) (op # ops))" by simp
    with n(1) show ?thesis by (metis Suc_le_mono length_Cons)
  qed
qed

lemma not_get_timeout: "a \<in> Call d ` set [Set_page_load_timeout t] \<Longrightarrow> \<not> is_get a"
  by auto

lemma not_get_cookie: "a \<in> Call d ` set (map Add_cookie cs) \<Longrightarrow> \<not> is_get a"
  by auto

lemma is_get_get: "a \<in> Call d ` set [Get u] \<Longrightarrow> is_get a"
  by auto

lemma not_get_wait: "a \<in> Call d ` set (wait_ops r) \<Longrightarrow> \<not> is_get a"
  by (auto simp: wait_ops_def split: if_splits)

lemma not_get_screenshot: "a \<in> Call d ` set (screenshot_ops r) \<Longrightarrow> \<not> is_get a"
  by (auto simp: screenshot_ops_def split: if_splits)

lemma not_get_scripts: "scripts_ops r = Some ss \<Longrightarrow> a \<in> Call d ` set ss \<Longrightarrow> \<not> is_get a"
  by (auto simp: scripts_ops_def split: if_splits option.splits)

lemma not_get_read: "a \<in> Call d ` set [Read_browser_state] \<Longrightarrow> \<not> is_get a"
  by auto

lemma scripts_ops_meta: "script_dict_list r' = script_dict_list r \<Longrightarrow> scripts_ops r' = scripts_ops r"
  by (simp add: scripts_ops_def split: option.splits)

lemma attempted_ops_None:
  "cookie_arguments (cookies r) = None \<Longrightarrow>
     attempted_ops self r = [Set_page_load_timeout (page_load_timeout self r)] @ []"
  by (simp add: attempted_ops_def)

lemma attempted_ops_Some:
  "cookie_arguments (cookies r) = Some cs \<Longrightarrow>
     attempted_ops self r =
       [Set_page_load_timeout (page_load_timeout self r)] @ map Add_cookie cs @ [Get (url r)] @
       wait_ops r @ screenshot_ops r @
       (case scripts_ops r of None \<Rightarrow> [] | Some ss \<Rightarrow> ss @ [Read_browser_state])"
  by (simp add: attempted_ops_def)

lemma attempted_ops_first:
  "\<exists>rest. attempted_ops self r = [Set_page_load_timeout (page_load_timeout self r)] @ rest"
  by (simp add: attempted_ops_def)

lemma outcome_fail:
  "exec env d (attempted_ops self r) w = (Some e, w') \<Longrightarrow> \<not> is_get (last w') \<Longrightarrow>
     outcome_ok env d self r w (Inl e) r' w'"
  by (simp add: outcome_ok_def)

lemma outcome_fail_get:
  "exec env d (attempted_ops self r) w = (Some e0, w') \<Longrightarrow> is_get (last w') \<Longrightarrow>
     outcome_ok env d self r w (Inl (remap e0)) r' w'"
  by (simp add: outcome_ok_def)

lemma master:
  assumes d: "self_driver self = Some d"
    and run: "process_selenium_request env self r w = (res, r', w')"
  shows "outcome_ok env d self r w res r' w'"
proof -
  let ?t = "Set_page_load_timeout (page_load_timeout self r)"
  obtain res1 w1 where s1: "driver_call env self ?t w = (res1, w1)" by force
  show ?thesis
  proof (cases res1)
    case (Inl e)
    with run s1 have r: "res = Inl e" "w' = w1" by (simp_all add: process_selenium_request_def)
    note e1 = driver_call_Inl [OF d s1 [unfolded Inl]]
    obtain rest where a: "attempted_ops self r = [?t] @ rest" using attempted_ops_first by blast
    have "exec env d (attempted_ops self r) w = (Some e, w1)"
      unfolding a by (rule exec_seq_Some [OF e1])
    then show ?thesis unfolding r
      by (rule outcome_fail) (rule not_get_timeout [OF exec_Some_last [OF e1]])
  next
    case v1: (Inr v1)
    note e1 = driver_call_Inr [OF d s1 [unfolded v1]]
    obtain res2 w2 where s2: "inject_cookies env self r w1 = (res2, w2)" by force
    show ?thesis
    proof (cases res2)
      case (Inl e)
      with run s1 v1 s2 have r: "res = Inl e" "w' = w2" by (simp_all add: process_selenium_request_def)
      from inject_cookies_Inl [OF d s2 [unfolded Inl]]
      consider "cookie_arguments (cookies r) = None" "w2 = w1" "e = AttributeError ''items''"
        | cs where "cookie_arguments (cookies r) = Some cs" "exec env d (map Add_cookie cs) w1 = (Some e, w2)"
        by auto
      then show ?thesis
      proof cases
        case 1
        have "exec env d (attempted_ops self r) w = (None, w1)"
          unfolding attempted_ops_None [OF 1(1)] by (rule exec_seq_None [OF e1]) simp
        with 1 r show ?thesis by (simp add: outcome_ok_def)
      next
        case 2
        have "exec env d (attempted_ops self r) w = (Some e, w2)"
          unfolding attempted_ops_Some [OF 2(1)]
          by (rule exec_seq_None [OF e1], rule exec_seq_Some [OF 2(2)])
        then show ?thesis unfolding r
          by (rule outcome_fail) (rule not_get_cookie [OF exec_Some_last [OF 2(2)]])
      qed
    next
      case v2: (Inr v2)
      from inject_cookies_Inr [OF d s2 [unfolded v2]] obtain cs where
        cs: "cookie_arguments (cookies r) = Some cs" and e2: "exec env d (map Add_cookie cs) w1 = (None, w2)"
        by blast
      note a = attempted_ops_Some [OF cs]
      obtain res3 w3 where s3: "navigate env self r w2 = (res3, w3)" by force
      show ?thesis
      proof (cases res3)
        case (Inl e)
        with run s1 v1 s2 v2 s3 have r: "res = Inl e" "w' = w3"
          by (simp_all add: process_selenium_request_def)
        from navigate_Inl [OF d s3 [unfolded Inl]] obtain e0 where
          e3: "exec env d [Get (url r)] w2 = (Some e0, w3)" and e0: "e = remap e0" by blast
        have "exec env d (attempted_ops self r) w = (Some e0, w3)"
          unfolding a
          by (rule exec_seq_None [OF e1], rule exec_seq_None [OF e2], rule exec_seq_Some [OF e3])
        then show ?thesis unfolding r e0
          by (rule outcome_fail_get) (rule is_get_get [OF exec_Some_last [OF e3]])
      next
        case v3: (Inr v3)
        note e3 = navigate_Inr [OF d s3 [unfolded v3]]
        obtain res4 w4 where s4: "wait_step env self r w3 = (res4, w4)" by force
        show ?thesis
        proof (cases res4)
          case (Inl e)
          with run s1 v1 s2 v2 s3 v3 s4 have r: "res = Inl e" "w' = w4"
            by (simp_all add: process_selenium_request_def)
          note e4 = wait_step_Inl [OF d s4 [unfolded Inl]]
          have "exec env d (attempted_ops self r) w = (Some e, w4)"
            unfolding a
            by (rule exec_seq_None [OF e1], rule exec_seq_None [OF e2], rule exec_seq_None [OF e3],
                rule exec_seq_Some [OF e4])
          then show ?thesis unfolding r
            by (rule outcome_fail) (rule not_get_wait [OF exec_Some_last [OF e4]])
        next
          case v4: (Inr v4)
          note e4 = wait_step_Inr [OF d s4 [unfolded v4]]
          obtain res5 w5 where s5: "screenshot_step env self r w4 = (res5, w5)" by force
          show ?thesis
          proof (cases res5)
            case (Inl e)
            with run s1 v1 s2 v2 s3 v3 s4 v4 s5 have r: "res = Inl e" "w' = w5"
              by (simp_all add: process_selenium_request_def)
            note e5 = screenshot_step_Inl [OF d s5 [unfolded Inl]]
            have "exec env d (attempted_ops self r) w = (Some e, w5)"
              unfolding a
              by (rule exec_seq_None [OF e1], rule exec_seq_None [OF e2], rule exec_seq_None [OF e3],
                  rule exec_seq_None [OF e4], rule exec_seq_Some [OF e5])
            then show ?thesis unfolding r
              by (rule outcome_fail) (rule not_get_screenshot [OF exec_Some_last [OF e5]])
          next
            case v5: (Inr r5)
            note e5 = conjunct1 [OF screenshot_step_Inr [OF d s5 [unfolded v5]]]
            note sd = scripts_ops_meta [OF conjunct2 [OF screenshot_step_Inr [OF d s5 [unfolded v5]]]]
            obtain res6 w6 where s6: "scripts_step env self r5 w5 = (res6, w6)" by force
            show ?thesis
            proof (cases res6)
              case (Inl e)
              with run s1 v1 s2 v2 s3 v3 s4 v4 s5 v5 s6 have r: "res = Inl e" "w' = w6"
                by (simp_all add: process_selenium_request_def)
              from scripts_step_Inl [OF d s6 [unfolded Inl]]
              consider "scripts_ops r = None" "w6 = w5" "e = TypeError ''len''"
                | ss where "scripts_ops r = Some ss" "exec env d ss w5 = (Some e, w6)"
                unfolding sd by auto
              then show ?thesis
              proof cases
                case 1
                have "exec env d (attempted_ops self r) w = (None, w5)"
                  unfolding a 1(1) option.case
                  by (rule exec_seq_None [OF e1], rule exec_seq_None [OF e2], rule exec_seq_None [OF e3],
                      rule exec_seq_None [OF e4], rule exec_seq_None [OF e5]) simp
                with 1 r cs show ?thesis by (simp add: outcome_ok_def)
              next
                case 2
                have "exec env d (attempted_ops self r) w = (Some e, w6)"
                  unfolding a 2(1) option.case
                  by (rule exec_seq_None [OF e1], rule exec_seq_None [OF e2], rule exec_seq_None [OF e3],
                      rule exec_seq_None [OF e4], rule exec_seq_None [OF e5], rule exec_seq_Some [OF 2(2)])
                then show ?thesis unfolding r
                  by (rule outcome_fail) (rule not_get_scripts [OF 2(1) exec_Some_last [OF 2(2)]])
              qed
            next
              case v6: (Inr v6)
              from scripts_step_Inr [OF d s6 [unfolded v6]] obtain ss where
                ss: "scripts_ops r = Some ss" and e6: "exec env d ss w5 = (None, w6)"
                unfolding sd by blast
              obtain res7 w7 where s7: "response_step env self r5 w6 = (res7, w7)" by force
              show ?thesis
              proof (cases res7)
                case (Inl e)
                with run s1 v1 s2 v2 s3 v3 s4 v4 s5 v5 s6 v6 s7 have r: "res = Inl e" "w' = w7"
                  by (simp_all add: process_selenium_request_def)
                note e7 = response_step_Inl [OF d s7 [unfolded Inl]]
                have "exec env d (attempted_ops self r) w = (Some e, w7)"
                  unfolding a ss option.case
                  by (rule exec_seq_None [OF e1], rule exec_seq_None [OF e2], rule exec_seq_None [OF e3],
                      rule exec_seq_None [OF e4], rule exec_seq_None [OF e5], rule exec_seq_None [OF e6],
                      rule e7)
                then show ?thesis unfolding r
                  by (rule outcome_fail) (rule not_get_read [OF exec_Some_last [OF e7]])
              next
                case v7: (Inr resp)
                with run s1 v1 s2 v2 s3 v3 s4 v4 s5 v5 s6 v6 s7
                have r: "res = Inr (Some resp)" "w' = w7" "r' = r5"
                  by (simp_all add: process_selenium_request_def)
                from response_step_Inr [OF d s7 [unfolded v7]] obtain st where
                  e7: "exec env d [Read_browser_state] w6 = (None, w7)"
                  and st: "env w6 (Call d Read_browser_state) = Inr st"
                  and resp: "resp = \<lparr>browser_state = st, of_request = r5\<rparr>" by blast
                from exec_None [OF e7] have "butlast w7 = w6" by simp
                with st have st': "env (butlast w7) (Call d Read_browser_state) = Inr st" by simp
                have "exec env d (attempted_ops self r) w = (None, w7)"
                  unfolding a ss option.case
                  by (rule exec_seq_None [OF e1], rule exec_seq_None [OF e2], rule exec_seq_None [OF e3],
                      rule exec_seq_None [OF e4], rule exec_seq_None [OF e5], rule exec_seq_None [OF e6],
                      rule e7)
                with st' cs ss r resp show ?thesis by (simp add: outcome_ok_def)
              qed
            qed
          qed
        qed
      qed
    qed
  qed
qed

lemma process_selenium_request_no_driver:
  "self_driver self = None \<Longrightarrow>
     process_selenium_request env self r w = (Inl (AttributeError ''driver''), r, w)"
  by (simp add: process_selenium_request_def driver_call_def)

lemma process_request_selenium:
  "process_request env self (SeleniumRequest r) w = (res, q, w') \<Longrightarrow>
     \<exists>r'. q = SeleniumRequest r' \<and> process_selenium_request env self r w = (res, r', w')"
  by (auto simp: process_request_def split: prod.splits)

lemma outcome_exec:
  "outcome_ok env d self r w res r' w' \<Longrightarrow> snd (exec env d (attempted_ops self r) w) = w'"
  by (auto simp: outcome_ok_def)

lemma process_world:
  assumes "self_driver self = Some d" "process_selenium_request env self r w = (res, r', w')"
  shows "\<exists>n\<le>length (attempted_ops self r). w' = w @ map (Call d) (take n (attempted_ops self r))"
  using exec_world [of "attempted_ops self r" env d w] outcome_exec [OF master [OF assms]]
  by simp

lemma outcome_returns:
  "outcome_ok env d self r w (Inr v) r' w' \<Longrightarrow>
     w' = w @ map (Call d) (attempted_ops self r) \<and>
     cookie_arguments (cookies r) \<noteq> None \<and> scripts_ops r \<noteq> None \<and>
     (\<exists>st. v = Some \<lparr>browser_state = st, of_request = r'\<rparr> \<and>
           env (butlast w') (Call d Read_browser_state) = Inr st)"
  by (auto simp: outcome_ok_def dest: exec_None)

lemma sorted_cookie_ranks: "sorted (map (code_order_rank \<circ> Call d \<circ> Add_cookie) cs)"
  by (induction cs) auto

lemma sorted_attempted_ops:
  "sorted (map code_order_rank (map (Call d) (attempted_ops self r)))"
  by (auto simp: attempted_ops_def wait_ops_def screenshot_ops_def scripts_ops_def sorted_append
      sorted_cookie_ranks split: option.splits)

lemma sorted_take_attempted_ops:
  "sorted (map code_order_rank (map (Call d) (take n (attempted_ops self r))))"
  using sorted_wrt_take [OF sorted_attempted_ops [of d self r], of n]
  by (simp add: take_map)

lemmas run_defs = process_request_def process_selenium_request_def
     driver_call_def perform_def page_load_timeout_def inject_cookies_def navigate_def wait_step_def screenshot_step_def
     scripts_step_def response_step_def handle_selenium_scripts_def generate_scrapy_response_def

lemma example_run:
  "process_request example_env example_middleware (SeleniumRequest example_request) [] =
     (Inr (Some \<lparr>browser_state = PStr ''<html></html>'',
                 of_request = example_request\<lparr>meta := [''screenshot'' \<mapsto> PBytes [137, 80, 78, 71]]\<rparr>\<rparr>),
      SeleniumRequest (example_request\<lparr>meta := [''screenshot'' \<mapsto> PBytes [137, 80, 78, 71]]\<rparr>),
      [Call 0 (Set_page_load_timeout (PFloat 180)),
       Call 0 (Add_cookie (PDict [(PStr ''name'', PStr ''k''), (PStr ''value'', PStr ''v'')])),
       Call 0 (Get (PStr ''http://a.test/'')),
       Call 0 (WebDriverWait_until (PInt 10) (PCallable ''title_is'')),
       Call 0 Get_screenshot_as_png,
       Call 0 (Handle_selenium_scripts (PList [PDict [(PStr ''script'', PStr ''window.scrollTo(0, 0)'')]])),
       Call 0 Read_browser_state])"
  by (simp add: run_defs example_env_def example_middleware_def example_request_def)

section \<open>The order of the driver operations\<close>

text \<open>
  Claim C1, as the specification states it: for every \<^verbatim>\<open>SeleniumRequest\<close>,
  \<^verbatim>\<open>process_request\<close> performs the driver operations in the order navigation,
  cookie injection, wait conditions, script execution, screenshot capture. The code
  does not: on the request below the cookie is added before the navigation and the
  screenshot is taken before the scripts run, so the operations are not in the order
  of the specification.
\<close>

theorem spec_order_counterexample:
  "\<not> in_spec_order
       (snd (snd (process_request example_env example_middleware (SeleniumRequest example_request) [])))"
  by (simp add: example_run in_spec_order_def List.map_filter_simps)

text \<open>
  Claim C1, amended: for every \<^verbatim>\<open>SeleniumRequest\<close>, the actions
  \<^verbatim>\<open>process_request\<close> adds to the world are in the order of the code: page-load
  timeout, cookie injection, navigation, wait condition, screenshot capture, script
  execution, response. When the method returns, the actions are exactly the
  operations the request asks for, all on the driver of the middleware.
\<close>

theorem process_request_order:
  assumes run: "process_request env self (SeleniumRequest r) w = (res, q, w')"
  shows "take (length w) w' = w \<and>
         sorted (map code_order_rank (drop (length w) w')) \<and>
         (\<forall>v. res = Inr v \<longrightarrow>
            (\<exists>d. self_driver self = Some d \<and>
                 drop (length w) w' = map (Call d) (attempted_ops self r) \<and>
                 cookie_arguments (cookies r) \<noteq> None \<and> scripts_ops r \<noteq> None))"
proof -
  from process_request_selenium [OF run] obtain r' where
    sel: "process_selenium_request env self r w = (res, r', w')" by blast
  show ?thesis
  proof (cases "self_driver self")
    case None
    from sel process_selenium_request_no_driver [OF None, of env r w] show ?thesis by auto
  next
    case (Some d)
    from process_world [OF Some sel] obtain n where
      w': "w' = w @ map (Call d) (take n (attempted_ops self r))" by blast
    have "sorted (map code_order_rank (drop (length w) w'))"
      unfolding w' using sorted_take_attempted_ops [of d n self r] by simp
    moreover have "take (length w) w' = w" unfolding w' by simp
    moreover have "\<forall>v. res = Inr v \<longrightarrow>
            (\<exists>d. self_driver self = Some d \<and>
                 drop (length w) w' = map (Call d) (attempted_ops self r) \<and>
                 cookie_arguments (cookies r) \<noteq> None \<and> scripts_ops r \<noteq> None)"
    proof (intro allI impI)
      fix v assume v: "res = Inr v"
      note ret = outcome_returns [OF master [OF Some sel [unfolded v]]]
      from ret have "drop (length w) w' = map (Call d) (attempted_ops self r)" by simp
      with ret Some show "\<exists>d. self_driver self = Some d \<and>
                 drop (length w) w' = map (Call d) (attempted_ops self r) \<and>
                 cookie_arguments (cookies r) \<noteq> None \<and> scripts_ops r \<noteq> None" by blast
    qed
    ultimately show ?thesis by blast
  qed
qed

theorem process_request_order_witness:
  "sorted (map code_order_rank
     (drop (length ([] :: world))
        (snd (snd (process_request example_env example_middleware (SeleniumRequest example_request) []))))) \<and>
   snd (snd (process_request example_env example_middleware (SeleniumRequest example_request) [])) =
      [Call 0 (Set_page_load_timeout (PFloat 180)),
       Call 0 (Add_cookie (PDict [(PStr ''name'', PStr ''k''), (PStr ''value'', PStr ''v'')])),
       Call 0 (Get (PStr ''http://a.test/'')),
       Call 0 (WebDriverWait_until (PInt 10) (PCallable ''title_is'')),
       Call 0 Get_screenshot_as_png,
       Call 0 (Handle_selenium_scripts (PList [PDict [(PStr ''script'', PStr ''window.scrollTo(0, 0)'')]])),
       Call 0 Read_browser_state]"
  using process_request_order [OF example_run] example_run by simp

section \<open>Requests of another class\<close>

text \<open>
  Claim C9: for every request that is not a \<^verbatim>\<open>SeleniumRequest\<close>,
  \<^verbatim>\<open>process_request\<close> returns \<^verbatim>\<open>None\<close>, performs no action (the world, and so the
  state of the driver, is unchanged) and leaves the request as it was.
\<close>

theorem process_request_other:
  "process_request env self (Request r) w = (Inr None, Request r, w)"
  by (simp add: process_request_def)

section \<open>The timeout of a navigation\<close>

lemma exec_Some_longer: "exec env d ops w = (Some e, w') \<Longrightarrow> length w < length w'"
proof (induction ops arbitrary: w)
  case Nil
  then show ?case by simp
next
  case (Cons op ops)
  show ?case
  proof (cases "env w (Call d op)")
    case (Inl e')
    with Cons.prems show ?thesis by auto
  next
    case (Inr v)
    with Cons.prems have "exec env d ops (w @ [Call d op]) = (Some e, w')" by simp
    from Cons.IH [OF this] show ?thesis by simp
  qed
qed

lemma filter_take_le: "length (filter P (take n xs)) \<le> length (filter P xs)"
proof -
  have "length (filter P xs) = length (filter P (take n xs)) + length (filter P (drop n xs))"
    by (metis append_take_drop_id filter_append length_append)
  then show ?thesis by simp
qed

lemma gets_attempted_ops: "length (filter is_get (map (Call d) (attempted_ops self r))) \<le> 1"
  by (auto simp: attempted_ops_def wait_ops_def screenshot_ops_def scripts_ops_def filter_map o_def
      split: option.splits)

lemma outcome_raises:
  assumes "outcome_ok env d self r w (Inl e) r' w'"
  shows "e = AttributeError ''items'' \<and> cookie_arguments (cookies r) = None
       \<or> e = TypeError ''len'' \<and> scripts_ops r = None
       \<or> (w' \<noteq> w \<and> (\<exists>e0. env (butlast w') (last w') = Inl e0 \<and>
             (if is_get (last w') \<and> (\<exists>m. e0 = TimeoutException m)
              then e = IgnoreRequest (TimeoutError e0 ''scrapy-selenium : request timeout'')
              else e = e0)))"
proof -
  from assms consider
      e0 where "exec env d (attempted_ops self r) w = (Some e0, w')"
        "e = (if is_get (last w') then remap e0 else e0)"
    | "e = AttributeError ''items''" "cookie_arguments (cookies r) = None"
    | "e = TypeError ''len''" "scripts_ops r = None"
    by (auto simp: outcome_ok_def)
  then show ?thesis
  proof cases
    case 1
    from exec_Some_longer [OF 1(1)] have "w' \<noteq> w" by auto
    moreover from exec_Some_raised [OF 1(1)] have "env (butlast w') (last w') = Inl e0" by simp
    moreover from 1(2) have "if is_get (last w') \<and> (\<exists>m. e0 = TimeoutException m)
              then e = IgnoreRequest (TimeoutError e0 ''scrapy-selenium : request timeout'')
              else e = e0"
      by (cases e0) (auto simp: remap_def)
    ultimately show ?thesis by blast
  next
    case 2
    then show ?thesis by simp
  next
    case 3
    then show ?thesis by simp
  qed
qed

lemma exec_reach:
  assumes "exec env d pre w = (None, h)"
  shows "\<exists>m. snd (exec env d (pre @ x # post) w) = h @ Call d x # map (Call d) (take m post)"
proof -
  have e: "exec env d (pre @ x # post) w = exec env d (x # post) h"
    using assms by (simp add: exec_append)
  show ?thesis
  proof (cases "env h (Call d x)")
    case (Inl e')
    with e have "snd (exec env d (pre @ x # post) w) = h @ Call d x # map (Call d) (take 0 post)"
      by simp
    then show ?thesis by blast
  next
    case (Inr v)
    from exec_world [of post env d "h @ [Call d x]"] obtain m where
      "snd (exec env d post (h @ [Call d x])) = (h @ [Call d x]) @ map (Call d) (take m post)"
      by blast
    with e Inr have "snd (exec env d (pre @ x # post) w) = h @ Call d x # map (Call d) (take m post)"
      by simp
    then show ?thesis by blast
  qed
qed

lemma exec_reach_raises:
  assumes "exec env d pre w = (None, h)" and "env h (Call d x) = Inl e"
  shows "exec env d (pre @ x # post) w = (Some e, h @ [Call d x])"
  using assms by (simp add: exec_append)

lemma outcome_raised_forward:
  assumes "outcome_ok env d self r w res r' w'"
    and "exec env d (attempted_ops self r) w = (Some e0, w1)"
  shows "w' = w1 \<and>
         res = Inl (if is_get (last w1) \<and> (\<exists>m. e0 = TimeoutException m)
                    then IgnoreRequest (TimeoutError e0 ''scrapy-selenium : request timeout'')
                    else e0)"
proof -
  from assms have "w' = w1" "res = Inl (if is_get (last w1) then remap e0 else e0)"
    by (auto simp: outcome_ok_def)
  moreover have "(if is_get (last w1) then remap e0 else e0) =
      (if is_get (last w1) \<and> (\<exists>m. e0 = TimeoutException m)
       then IgnoreRequest (TimeoutError e0 ''scrapy-selenium : request timeout'') else e0)"
    by (cases e0) (auto simp: remap_def)
  ultimately show ?thesis by simp
qed

lemma attempted_ops_navigation:
  "cookie_arguments (cookies r) = Some cs \<Longrightarrow>
     attempted_ops self r =
       (Set_page_load_timeout (page_load_timeout self r) # map Add_cookie cs) @
       Get (url r) #
       (wait_ops r @ screenshot_ops r @
        (case scripts_ops r of None \<Rightarrow> [] | Some ss \<Rightarrow> ss @ [Read_browser_state]))"
  by (simp add: attempted_ops_def)

text \<open>
  Claim C2: the only handling of a timeout is one remap of an exception. In every run
  of \<^verbatim>\<open>process_request\<close> on a \<^verbatim>\<open>SeleniumRequest\<close> the navigation is
  attempted at most once (no retry). Whenever the steps before the navigation return
  and \<^verbatim>\<open>driver.get\<close> raises the driver's \<^verbatim>\<open>TimeoutException\<close>, the method
  raises \<^verbatim>\<open>IgnoreRequest\<close> wrapping a \<^verbatim>\<open>TimeoutError\<close> built from it, and
  stops there. Whenever an operation raises anything else, or an operation other than
  the navigation raises, the method raises that very exception. Conversely, an
  exception that leaves the method is raised by the interpreter on an attribute (the
  missing driver, \<^verbatim>\<open>items\<close>, \<^verbatim>\<open>len\<close>), or it stems in this way from the last
  action performed.
\<close>

theorem timeout_remap_only:
  assumes run: "process_request env self (SeleniumRequest r) w = (res, q, w')"
  shows "length (filter is_get (drop (length w) w')) \<le> 1 \<and>
         (\<forall>e. res = Inl e \<longrightarrow>
            e = AttributeError ''driver'' \<and> w' = w
          \<or> e = AttributeError ''items'' \<and> cookie_arguments (cookies r) = None
          \<or> e = TypeError ''len'' \<and> scripts_ops r = None
          \<or> (w' \<noteq> w \<and> (\<exists>e0. env (butlast w') (last w') = Inl e0 \<and>
               (if is_get (last w') \<and> (\<exists>m. e0 = TimeoutException m)
                then e = IgnoreRequest (TimeoutError e0 ''scrapy-selenium : request timeout'')
                else e = e0)))) \<and>
         (\<forall>d cs h m.
            self_driver self = Some d \<and> cookie_arguments (cookies r) = Some cs \<and>
            exec env d (Set_page_load_timeout (page_load_timeout self r) # map Add_cookie cs) w = (None, h) \<and>
            env h (Call d (Get (url r))) = Inl (TimeoutException m) \<longrightarrow>
            res = Inl (IgnoreRequest (TimeoutError (TimeoutException m)
                         ''scrapy-selenium : request timeout'')) \<and>
            w' = h @ [Call d (Get (url r))]) \<and>
         (\<forall>d e0 w1.
            self_driver self = Some d \<and> exec env d (attempted_ops self r) w = (Some e0, w1) \<longrightarrow>
            w' = w1 \<and>
            res = Inl (if is_get (last w1) \<and> (\<exists>m. e0 = TimeoutException m)
                       then IgnoreRequest (TimeoutError e0 ''scrapy-selenium : request timeout'')
                       else e0))"
proof -
  from process_request_selenium [OF run] obtain r' where
    sel: "process_selenium_request env self r w = (res, r', w')" by blast
  show ?thesis
  proof (cases "self_driver self")
    case None
    from sel process_selenium_request_no_driver [OF None, of env r w] None show ?thesis by auto
  next
    case (Some d)
    note ok = master [OF Some sel]
    from process_world [OF Some sel] obtain n where
      w': "w' = w @ map (Call d) (take n (attempted_ops self r))" by blast
    have 1: "length (filter is_get (drop (length w) w')) \<le> 1"
      unfolding w'
      using filter_take_le [of is_get n "map (Call d) (attempted_ops self r)"]
        gets_attempted_ops [of d self r]
      by (simp add: take_map)
    have 2: "\<forall>e. res = Inl e \<longrightarrow>
            e = AttributeError ''driver'' \<and> w' = w
          \<or> e = AttributeError ''items'' \<and> cookie_arguments (cookies r) = None
          \<or> e = TypeError ''len'' \<and> scripts_ops r = None
          \<or> (w' \<noteq> w \<and> (\<exists>e0. env (butlast w') (last w') = Inl e0 \<and>
               (if is_get (last w') \<and> (\<exists>m. e0 = TimeoutException m)
                then e = IgnoreRequest (TimeoutError e0 ''scrapy-selenium : request timeout'')
                else e = e0)))"
    proof (intro allI impI)
      fix e assume e: "res = Inl e"
      from outcome_raises [OF master [OF Some sel [unfolded e]]]
      show "e = AttributeError ''driver'' \<and> w' = w
          \<or> e = AttributeError ''items'' \<and> cookie_arguments (cookies r) = None
          \<or> e = TypeError ''len'' \<and> scripts_ops r = None
          \<or> (w' \<noteq> w \<and> (\<exists>e0. env (butlast w') (last w') = Inl e0 \<and>
               (if is_get (last w') \<and> (\<exists>m. e0 = TimeoutException m)
                then e = IgnoreRequest (TimeoutError e0 ''scrapy-selenium : request timeout'')
                else e = e0)))" by blast
    qed
    have 4: "w' = w1 \<and>
            res = Inl (if is_get (last w1) \<and> (\<exists>m. e0 = TimeoutException m)
                       then IgnoreRequest (TimeoutError e0 ''scrapy-selenium : request timeout'')
                       else e0)"
      if "self_driver self = Some d'" "exec env d' (attempted_ops self r) w = (Some e0, w1)"
      for d' e0 w1
      using outcome_raised_forward [OF ok] that Some by simp
    have 3: "res = Inl (IgnoreRequest (TimeoutError (TimeoutException m)
                         ''scrapy-selenium : request timeout'')) \<and>
            w' = h @ [Call d' (Get (url r))]"
      if "self_driver self = Some d'" "cookie_arguments (cookies r) = Some cs"
        "exec env d' (Set_page_load_timeout (page_load_timeout self r) # map Add_cookie cs) w = (None, h)"
        "env h (Call d' (Get (url r))) = Inl (TimeoutException m)"
      for d' cs h m
    proof -
      have "exec env d' (attempted_ops self r) w = (Some (TimeoutException m), h @ [Call d' (Get (url r))])"
        unfolding attempted_ops_navigation [OF that(2)]
        by (rule exec_reach_raises [OF that(3) that(4)])
      from 4 [OF that(1) this] show ?thesis by simp
    qed
    from 1 2 3 4 show ?thesis by blast
  qed
qed

lemma timeout_run:
  "process_request timeout_env example_middleware (SeleniumRequest dict_cookie_request) [] =
     (Inl (IgnoreRequest (TimeoutError (TimeoutException ''page load'')
             ''scrapy-selenium : request timeout'')),
      SeleniumRequest dict_cookie_request,
      [Call 0 (Set_page_load_timeout (PFloat 180)),
       Call 0 (Add_cookie (PStr ''session'')),
       Call 0 (Add_cookie (PStr ''lang'')),
       Call 0 (Get (PStr ''http://a.test/''))])"
  by (simp add: run_defs timeout_env_def example_middleware_def example_request_def
      dict_cookie_request_def)

theorem timeout_remap_only_witness:
  "process_request timeout_env example_middleware (SeleniumRequest dict_cookie_request) [] =
     (Inl (IgnoreRequest (TimeoutError (TimeoutException ''page load'')
             ''scrapy-selenium : request timeout'')),
      SeleniumRequest dict_cookie_request,
      [Call 0 (Set_page_load_timeout (PFloat 180)),
       Call 0 (Add_cookie (PStr ''session'')),
       Call 0 (Add_cookie (PStr ''lang'')),
       Call 0 (Get (PStr ''http://a.test/''))]) \<and>
   length (filter is_get
     [Call 0 (Set_page_load_timeout (PFloat 180)),
      Call 0 (Add_cookie (PStr ''session'')),
      Call 0 (Add_cookie (PStr ''lang'')),
      Call 0 (Get (PStr ''http://a.test/''))]) \<le> 1 \<and>
   timeout_env [Call 0 (Set_page_load_timeout (PFloat 180)),
      Call 0 (Add_cookie (PStr ''session'')),
      Call 0 (Add_cookie (PStr ''lang''))] (Call 0 (Get (PStr ''http://a.test/''))) =
     Inl (TimeoutException ''page load'') \<and>
   self_driver example_middleware = Some 0 \<and>
   cookie_arguments (cookies dict_cookie_request) = Some [PStr ''session'', PStr ''lang''] \<and>
   exec timeout_env 0
     (Set_page_load_timeout (page_load_timeout example_middleware dict_cookie_request) #
      map Add_cookie [PStr ''session'', PStr ''lang'']) [] =
     (None,
      [Call 0 (Set_page_load_timeout (PFloat 180)),
       Call 0 (Add_cookie (PStr ''session'')),
       Call 0 (Add_cookie (PStr ''lang''))])"
  using timeout_remap_only [OF timeout_run] timeout_run
  by (simp add: timeout_env_def cookie_arguments_def dict_cookie_request_def example_request_def
      page_load_timeout_def example_middleware_def)

section \<open>The response\<close>

lemma attempted_ops_last:
  "cookie_arguments (cookies r) \<noteq> None \<Longrightarrow> scripts_ops r \<noteq> None \<Longrightarrow>
     attempted_ops self r \<noteq> [] \<and> last (attempted_ops self r) = Read_browser_state \<and>
     Get (url r) \<in> set (butlast (attempted_ops self r))"
  by (auto simp: attempted_ops_def butlast_append)

text \<open>
  Claim C4: for every \<^verbatim>\<open>SeleniumRequest\<close> on which \<^verbatim>\<open>process_request\<close> completes
  without an exception, the value returned is a response and never \<^verbatim>\<open>None\<close>. The
  response is built from the state the driver reports last of all, after the
  navigation and after the wait, screenshot and script steps the request asks for,
  and it is the response for the request as the method leaves it.
\<close>

theorem process_request_returns_response:
  assumes run: "process_request env self (SeleniumRequest r) w = (Inr v, q, w')"
  shows "v \<noteq> None \<and>
         (\<exists>d r' st. self_driver self = Some d \<and> q = SeleniumRequest r' \<and>
            v = Some \<lparr>browser_state = st, of_request = r'\<rparr> \<and>
            last w' = Call d Read_browser_state \<and>
            env (butlast w') (Call d Read_browser_state) = Inr st \<and>
            butlast w' = w @ map (Call d) (butlast (attempted_ops self r)) \<and>
            Call d (Get (url r)) \<in> set (butlast w'))"
proof -
  from process_request_selenium [OF run] obtain r' where
    q: "q = SeleniumRequest r'" and sel: "process_selenium_request env self r w = (Inr v, r', w')"
    by blast
  show ?thesis
  proof (cases "self_driver self")
    case None
    from sel process_selenium_request_no_driver [OF None, of env r w] show ?thesis by simp
  next
    case (Some d)
    from outcome_returns [OF master [OF Some sel]] obtain st where
      w': "w' = w @ map (Call d) (attempted_ops self r)"
      and c: "cookie_arguments (cookies r) \<noteq> None" and s: "scripts_ops r \<noteq> None"
      and v: "v = Some \<lparr>browser_state = st, of_request = r'\<rparr>"
      and st: "env (butlast w') (Call d Read_browser_state) = Inr st" by blast
    note l = attempted_ops_last [OF c s, of self]
    from l have bl: "butlast w' = w @ map (Call d) (butlast (attempted_ops self r))"
      unfolding w' by (simp add: butlast_append map_butlast)
    from l have la: "last w' = Call d Read_browser_state"
      unfolding w' by (simp add: last_map)
    from l have "Call d (Get (url r)) \<in> set (butlast w')" unfolding bl by auto
    with Some q v st bl la show ?thesis by blast
  qed
qed

theorem process_request_returns_response_witness:
  "process_request example_env example_middleware (SeleniumRequest example_request) [] =
     (Inr (Some \<lparr>browser_state = PStr ''<html></html>'',
                 of_request = example_request\<lparr>meta := [''screenshot'' \<mapsto> PBytes [137, 80, 78, 71]]\<rparr>\<rparr>),
      SeleniumRequest (example_request\<lparr>meta := [''screenshot'' \<mapsto> PBytes [137, 80, 78, 71]]\<rparr>),
      [Call 0 (Set_page_load_timeout (PFloat 180)),
       Call 0 (Add_cookie (PDict [(PStr ''name'', PStr ''k''), (PStr ''value'', PStr ''v'')])),
       Call 0 (Get (PStr ''http://a.test/'')),
       Call 0 (WebDriverWait_until (PInt 10) (PCallable ''title_is'')),
       Call 0 Get_screenshot_as_png,
       Call 0 (Handle_selenium_scripts (PList [PDict [(PStr ''script'', PStr ''window.scrollTo(0, 0)'')]])),
       Call 0 Read_browser_state]) \<and>
   Some \<lparr>browser_state = PStr ''<html></html>'',
         of_request = example_request\<lparr>meta := [''screenshot'' \<mapsto> PBytes [137, 80, 78, 71]]\<rparr>\<rparr> \<noteq> None"
  using process_request_returns_response [OF example_run] example_run by simp

section \<open>The screenshot\<close>

lemma exec_append_None:
  "exec env d (xs @ ys) w = (None, w') \<Longrightarrow>
     \<exists>w1. exec env d xs w = (None, w1) \<and> exec env d ys w1 = (None, w')"
  by (auto simp: exec_append split: prod.splits option.splits)

lemma driver_call_returns:
  "self_driver self = Some d \<Longrightarrow> exec env d [op] w = (None, w1) \<Longrightarrow>
     \<exists>v. driver_call env self op w = (Inr v, w1)"
  by (auto simp: driver_call_def perform_def split: sum.splits)

lemma add_cookies_returns:
  "self_driver self = Some d \<Longrightarrow> exec env d (map Add_cookie cs) w = (None, w1) \<Longrightarrow>
     add_cookies env self cs w = (Inr PNone, w1)"
  by (induction cs arbitrary: w) (auto simp: driver_call_def perform_def split: sum.splits)

lemma inject_cookies_returns:
  "self_driver self = Some d \<Longrightarrow> cookie_arguments (cookies r) = Some cs \<Longrightarrow>
   exec env d (map Add_cookie cs) w = (None, w1) \<Longrightarrow>
     inject_cookies env self r w = (Inr PNone, w1)"
  by (auto simp: inject_cookies_def cookie_arguments_def add_cookies_returns
      split: if_splits option.splits)

lemma navigate_returns:
  "self_driver self = Some d \<Longrightarrow> exec env d [Get (url r)] w = (None, w1) \<Longrightarrow>
     \<exists>v. navigate env self r w = (Inr v, w1)"
  by (auto simp: navigate_def driver_call_def perform_def split: sum.splits)

lemma wait_step_returns:
  "self_driver self = Some d \<Longrightarrow> exec env d (wait_ops r) w = (None, w1) \<Longrightarrow>
     \<exists>v. wait_step env self r w = (Inr v, w1)"
  by (auto simp: wait_step_def wait_ops_def driver_call_def perform_def split: sum.splits if_splits)

lemma reach_screenshot:
  assumes d: "self_driver self = Some d"
    and cs: "cookie_arguments (cookies r) = Some cs"
    and pre: "exec env d (Set_page_load_timeout (page_load_timeout self r) # map Add_cookie cs @
                Get (url r) # wait_ops r) w = (None, h)"
  shows "process_selenium_request env self r w =
     (case screenshot_step env self r h of
        (Inl e, w5) \<Rightarrow> (Inl e, r, w5)
      | (Inr r', w5) \<Rightarrow>
     (case scripts_step env self r' w5 of
        (Inl e, w6) \<Rightarrow> (Inl e, r', w6)
      | (Inr v6, w6) \<Rightarrow>
     (case response_step env self r' w6 of
        (Inl e, w7) \<Rightarrow> (Inl e, r', w7)
      | (Inr resp, w7) \<Rightarrow> (Inr (Some resp), r', w7))))"
proof -
  let ?t = "Set_page_load_timeout (page_load_timeout self r)"
  have "exec env d ([?t] @ map Add_cookie cs @ [Get (url r)] @ wait_ops r) w = (None, h)"
    using pre by simp
  from exec_append_None [OF this] obtain w1 where
    e1: "exec env d [?t] w = (None, w1)"
    and r1: "exec env d (map Add_cookie cs @ [Get (url r)] @ wait_ops r) w1 = (None, h)" by blast
  from exec_append_None [OF r1] obtain w2 where
    e2: "exec env d (map Add_cookie cs) w1 = (None, w2)"
    and r2: "exec env d ([Get (url r)] @ wait_ops r) w2 = (None, h)" by blast
  from exec_append_None [OF r2] obtain w3 where
    e3: "exec env d [Get (url r)] w2 = (None, w3)"
    and e4: "exec env d (wait_ops r) w3 = (None, h)" by blast
  from driver_call_returns [OF d e1] obtain v1 where s1: "driver_call env self ?t w = (Inr v1, w1)" by blast
  note s2 = inject_cookies_returns [OF d cs e2]
  from navigate_returns [OF d e3] obtain v3 where s3: "navigate env self r w2 = (Inr v3, w3)" by blast
  from wait_step_returns [OF d e4] obtain v4 where s4: "wait_step env self r w3 = (Inr v4, h)" by blast
  show ?thesis by (simp add: process_selenium_request_def s1 s2 s3 s4)
qed

lemma request_after:
  "process_selenium_request env self r w = (res, r', w') \<Longrightarrow>
     r' = r \<or> (\<exists>w4 w5. screenshot_step env self r w4 = (Inr r', w5))"
  by (auto simp: process_selenium_request_def split: prod.splits sum.splits)

lemma screenshot_step_result:
  assumes "screenshot_step env self r w = (res, w')"
  shows "(\<not> truthy (screenshot r) \<longrightarrow> res = Inr r \<and> w' = w) \<and>
         (truthy (screenshot r) \<longrightarrow>
            (\<forall>r'. res = Inr r' \<longrightarrow>
               (\<exists>d png. self_driver self = Some d \<and>
                  env w (Call d Get_screenshot_as_png) = Inr png \<and>
                  w' = w @ [Call d Get_screenshot_as_png] \<and>
                  r' = r\<lparr>meta := (meta r)(''screenshot'' \<mapsto> png)\<rparr> \<and>
                  meta r' ''screenshot'' = Some png))) \<and>
         (\<forall>r'. res = Inr r' \<longrightarrow>
            r'\<lparr>meta := meta r\<rparr> = r \<and> (\<forall>k. k \<noteq> ''screenshot'' \<longrightarrow> meta r' k = meta r k))"
  using assms
  by (auto simp: screenshot_step_def driver_call_def perform_def
      split: if_splits option.splits sum.splits)

lemma attempted_ops_screenshot:
  "truthy (screenshot r) \<Longrightarrow> cookie_arguments (cookies r) = Some cs \<Longrightarrow>
     attempted_ops self r =
       (Set_page_load_timeout (page_load_timeout self r) # map Add_cookie cs @
          Get (url r) # wait_ops r) @
       Get_screenshot_as_png #
       (case scripts_ops r of None \<Rightarrow> [] | Some ss \<Rightarrow> ss @ [Read_browser_state])"
  by (simp add: attempted_ops_def screenshot_ops_def)

lemma no_screenshot_without_flag:
  "\<not> truthy (screenshot r) \<Longrightarrow> x \<in> set (attempted_ops self r) \<Longrightarrow> \<not> is_screenshot (Call d x)"
  by (auto simp: attempted_ops_def wait_ops_def screenshot_ops_def scripts_ops_def
      split: option.splits if_splits)

lemma request_of_tail:
  "(res, r', w') =
     (case scripts_step env self r2 w5 of
        (Inl e, w6) \<Rightarrow> (Inl e, r2, w6)
      | (Inr v6, w6) \<Rightarrow>
     (case response_step env self r2 w6 of
        (Inl e, w7) \<Rightarrow> (Inl e, r2, w7)
      | (Inr resp, w7) \<Rightarrow> (Inr (Some resp), r2, w7))) \<Longrightarrow> r' = r2"
  by (auto split: prod.splits sum.splits)

text \<open>
  Claim C6: of the request, \<^verbatim>\<open>process_request\<close> changes the meta only, and there
  only the key \<^verbatim>\<open>screenshot\<close>. With a true \<^verbatim>\<open>screenshot\<close> flag, whenever the
  steps before the screenshot return, the next action of the method is
  \<^verbatim>\<open>get_screenshot_as_png\<close> on the driver of the middleware; when that call
  returns, the request leaves the method with the returned bytes under the key
  \<^verbatim>\<open>screenshot\<close> of its meta and every other field and key as before, whatever
  the later steps do; when it raises, the exception leaves the method and the request
  is unchanged. The meta is never set to anything but what that call returned. With a
  false flag no screenshot is taken and the request, its meta included, leaves the
  method unchanged. The last part states the same of the step of lines 155 and 156
  on its own, from any world.
\<close>

theorem screenshot_step_frame:
  assumes run: "process_request env self (SeleniumRequest r) w = (res, q, w')"
  shows "(\<exists>r'. q = SeleniumRequest r' \<and>
            r'\<lparr>meta := meta r\<rparr> = r \<and>
            (\<forall>k. k \<noteq> ''screenshot'' \<longrightarrow> meta r' k = meta r k) \<and>
            (\<not> truthy (screenshot r) \<longrightarrow> r' = r) \<and>
            (r' = r \<or>
             (\<exists>d png h. self_driver self = Some d \<and> truthy (screenshot r) \<and>
                env h (Call d Get_screenshot_as_png) = Inr png \<and>
                r' = r\<lparr>meta := (meta r)(''screenshot'' \<mapsto> png)\<rparr>))) \<and>
         (\<not> truthy (screenshot r) \<longrightarrow> filter is_screenshot (drop (length w) w') = []) \<and>
         (\<forall>d cs h.
            self_driver self = Some d \<and> cookie_arguments (cookies r) = Some cs \<and>
            truthy (screenshot r) \<and>
            exec env d (Set_page_load_timeout (page_load_timeout self r) # map Add_cookie cs @
                         Get (url r) # wait_ops r) w = (None, h) \<longrightarrow>
            take (Suc (length h)) w' = h @ [Call d Get_screenshot_as_png] \<and>
            (\<forall>png. env h (Call d Get_screenshot_as_png) = Inr png \<longrightarrow>
               q = SeleniumRequest (r\<lparr>meta := (meta r)(''screenshot'' \<mapsto> png)\<rparr>)) \<and>
            (\<forall>e. env h (Call d Get_screenshot_as_png) = Inl e \<longrightarrow>
               res = Inl e \<and> q = SeleniumRequest r \<and> w' = h @ [Call d Get_screenshot_as_png])) \<and>
         (\<forall>wx res1 w1. screenshot_step env self r wx = (res1, w1) \<longrightarrow>
            (\<not> truthy (screenshot r) \<longrightarrow> res1 = Inr r \<and> w1 = wx) \<and>
            (truthy (screenshot r) \<longrightarrow>
               (\<forall>r'. res1 = Inr r' \<longrightarrow>
                  (\<exists>d png. self_driver self = Some d \<and>
                     env wx (Call d Get_screenshot_as_png) = Inr png \<and>
                     w1 = wx @ [Call d Get_screenshot_as_png] \<and>
                     r' = r\<lparr>meta := (meta r)(''screenshot'' \<mapsto> png)\<rparr> \<and>
                     meta r' ''screenshot'' = Some png))) \<and>
            (\<forall>r'. res1 = Inr r' \<longrightarrow>
               r'\<lparr>meta := meta r\<rparr> = r \<and> (\<forall>k. k \<noteq> ''screenshot'' \<longrightarrow> meta r' k = meta r k)))"
proof -
  let ?shot = "Get_screenshot_as_png"
  from process_request_selenium [OF run] obtain r' where
    q: "q = SeleniumRequest r'" and sel: "process_selenium_request env self r w = (res, r', w')"
    by blast
  have A0: "r'\<lparr>meta := meta r\<rparr> = r \<and>
            (\<forall>k. k \<noteq> ''screenshot'' \<longrightarrow> meta r' k = meta r k) \<and>
            (\<not> truthy (screenshot r) \<longrightarrow> r' = r) \<and>
            (r' = r \<or>
             (\<exists>d png h. self_driver self = Some d \<and> truthy (screenshot r) \<and>
                env h (Call d Get_screenshot_as_png) = Inr png \<and>
                r' = r\<lparr>meta := (meta r)(''screenshot'' \<mapsto> png)\<rparr>))"
  proof -
    from request_after [OF sel] consider "r' = r"
      | w4 w5 where "screenshot_step env self r w4 = (Inr r', w5)" by blast
    then show ?thesis
    proof cases
      case 1
      then show ?thesis by simp
    next
      case 2
      from screenshot_step_result [OF 2] show ?thesis by (cases "truthy (screenshot r)") auto
    qed
  qed
  have D: "\<forall>wx res1 w1. screenshot_step env self r wx = (res1, w1) \<longrightarrow>
            (\<not> truthy (screenshot r) \<longrightarrow> res1 = Inr r \<and> w1 = wx) \<and>
            (truthy (screenshot r) \<longrightarrow>
               (\<forall>r'. res1 = Inr r' \<longrightarrow>
                  (\<exists>d png. self_driver self = Some d \<and>
                     env wx (Call d Get_screenshot_as_png) = Inr png \<and>
                     w1 = wx @ [Call d Get_screenshot_as_png] \<and>
                     r' = r\<lparr>meta := (meta r)(''screenshot'' \<mapsto> png)\<rparr> \<and>
                     meta r' ''screenshot'' = Some png))) \<and>
            (\<forall>r'. res1 = Inr r' \<longrightarrow>
               r'\<lparr>meta := meta r\<rparr> = r \<and> (\<forall>k. k \<noteq> ''screenshot'' \<longrightarrow> meta r' k = meta r k))"
  proof (intro allI impI)
    fix wx res1 w1 assume "screenshot_step env self r wx = (res1, w1)"
    then show "(\<not> truthy (screenshot r) \<longrightarrow> res1 = Inr r \<and> w1 = wx) \<and>
            (truthy (screenshot r) \<longrightarrow>
               (\<forall>r'. res1 = Inr r' \<longrightarrow>
                  (\<exists>d png. self_driver self = Some d \<and>
                     env wx (Call d Get_screenshot_as_png) = Inr png \<and>
                     w1 = wx @ [Call d Get_screenshot_as_png] \<and>
                     r' = r\<lparr>meta := (meta r)(''screenshot'' \<mapsto> png)\<rparr> \<and>
                     meta r' ''screenshot'' = Some png))) \<and>
            (\<forall>r'. res1 = Inr r' \<longrightarrow>
               r'\<lparr>meta := meta r\<rparr> = r \<and> (\<forall>k. k \<noteq> ''screenshot'' \<longrightarrow> meta r' k = meta r k))"
      by (rule screenshot_step_result)
  qed
  have A: "\<exists>r'. q = SeleniumRequest r' \<and>
            r'\<lparr>meta := meta r\<rparr> = r \<and>
            (\<forall>k. k \<noteq> ''screenshot'' \<longrightarrow> meta r' k = meta r k) \<and>
            (\<not> truthy (screenshot r) \<longrightarrow> r' = r) \<and>
            (r' = r \<or>
             (\<exists>d png h. self_driver self = Some d \<and> truthy (screenshot r) \<and>
                env h (Call d Get_screenshot_as_png) = Inr png \<and>
                r' = r\<lparr>meta := (meta r)(''screenshot'' \<mapsto> png)\<rparr>))"
    by (rule exI [of _ r']) (rule conjI [OF q A0])
  have B: "\<not> truthy (screenshot r) \<longrightarrow> filter is_screenshot (drop (length w) w') = []"
  proof (cases "self_driver self")
    case None
    from sel process_selenium_request_no_driver [OF None, of env r w] show ?thesis by auto
  next
    case (Some d)
    from process_world [OF Some sel] obtain n where
      "w' = w @ map (Call d) (take n (attempted_ops self r))" by blast
    then have new: "drop (length w) w' = map (Call d) (take n (attempted_ops self r))" by simp
    show ?thesis
      unfolding new using no_screenshot_without_flag [of r _ self d]
      by (auto simp: filter_empty_conv dest: in_set_takeD)
  qed
  have C: "\<forall>d cs h.
            self_driver self = Some d \<and> cookie_arguments (cookies r) = Some cs \<and>
            truthy (screenshot r) \<and>
            exec env d (Set_page_load_timeout (page_load_timeout self r) # map Add_cookie cs @
                         Get (url r) # wait_ops r) w = (None, h) \<longrightarrow>
            take (Suc (length h)) w' = h @ [Call d Get_screenshot_as_png] \<and>
            (\<forall>png. env h (Call d Get_screenshot_as_png) = Inr png \<longrightarrow>
               q = SeleniumRequest (r\<lparr>meta := (meta r)(''screenshot'' \<mapsto> png)\<rparr>)) \<and>
            (\<forall>e. env h (Call d Get_screenshot_as_png) = Inl e \<longrightarrow>
               res = Inl e \<and> q = SeleniumRequest r \<and> w' = h @ [Call d Get_screenshot_as_png])"
  proof (intro allI impI, elim conjE)
    fix d cs h
    assume h: "self_driver self = Some d" "cookie_arguments (cookies r) = Some cs"
      "truthy (screenshot r)"
      "exec env d (Set_page_load_timeout (page_load_timeout self r) # map Add_cookie cs @
                         Get (url r) # wait_ops r) w = (None, h)"
    show "take (Suc (length h)) w' = h @ [Call d Get_screenshot_as_png] \<and>
            (\<forall>png. env h (Call d Get_screenshot_as_png) = Inr png \<longrightarrow>
               q = SeleniumRequest (r\<lparr>meta := (meta r)(''screenshot'' \<mapsto> png)\<rparr>)) \<and>
            (\<forall>e. env h (Call d Get_screenshot_as_png) = Inl e \<longrightarrow>
               res = Inl e \<and> q = SeleniumRequest r \<and> w' = h @ [Call d Get_screenshot_as_png])"
    proof -
      note a = attempted_ops_screenshot [OF h(3) h(2), of self]
      from exec_reach [OF h(4), of ?shot "case scripts_ops r of None \<Rightarrow> [] | Some ss \<Rightarrow> ss @ [Read_browser_state]"]
      obtain m where "snd (exec env d (attempted_ops self r) w) =
          h @ Call d ?shot # map (Call d) (take m (case scripts_ops r of None \<Rightarrow> [] | Some ss \<Rightarrow> ss @ [Read_browser_state]))"
        unfolding a by blast
      with outcome_exec [OF master [OF h(1) sel]]
      have "w' = h @ Call d ?shot # map (Call d) (take m (case scripts_ops r of None \<Rightarrow> [] | Some ss \<Rightarrow> ss @ [Read_browser_state]))"
        by simp
      then have 1: "take (Suc (length h)) w' = h @ [Call d ?shot]" by simp
      note reach = reach_screenshot [OF h(1) h(2) h(4), unfolded sel]
      have 2: "q = SeleniumRequest (r\<lparr>meta := (meta r)(''screenshot'' \<mapsto> png)\<rparr>)"
        if "env h (Call d ?shot) = Inr png" for png
      proof -
        from that h(1) h(3)
        have "screenshot_step env self r h =
            (Inr (r\<lparr>meta := (meta r)(''screenshot'' \<mapsto> png)\<rparr>), h @ [Call d ?shot])"
          by (simp add: screenshot_step_def driver_call_def perform_def)
        with reach have "r' = r\<lparr>meta := (meta r)(''screenshot'' \<mapsto> png)\<rparr>"
          by (simp add: request_of_tail)
        with q show ?thesis by simp
      qed
      have 3: "res = Inl e \<and> q = SeleniumRequest r \<and> w' = h @ [Call d ?shot]"
        if "env h (Call d ?shot) = Inl e" for e
      proof -
        from that h(1) h(3)
        have "screenshot_step env self r h = (Inl e, h @ [Call d ?shot])"
          by (simp add: screenshot_step_def driver_call_def perform_def)
        with reach q show ?thesis by simp
      qed
      from 1 2 3 show ?thesis by blast
    qed
  qed
  show ?thesis by (rule conjI [OF A conjI [OF B conjI [OF C D]]])
qed

lemma plain_run:
  "process_request example_env example_middleware (SeleniumRequest plain_selenium_request) [] =
     (Inr (Some \<lparr>browser_state = PStr ''<html></html>'', of_request = plain_selenium_request\<rparr>),
      SeleniumRequest plain_selenium_request,
      [Call 0 (Set_page_load_timeout (PInt 5)),
       Call 0 (Get (PStr ''http://a.test/'')),
       Call 0 Read_browser_state])"
  by (simp add: run_defs example_env_def example_middleware_def plain_selenium_request_def)

theorem screenshot_step_frame_witness:
  "process_request example_env example_middleware (SeleniumRequest example_request) [] =
     (Inr (Some \<lparr>browser_state = PStr ''<html></html>'',
                 of_request = example_request\<lparr>meta := [''screenshot'' \<mapsto> PBytes [137, 80, 78, 71]]\<rparr>\<rparr>),
      SeleniumRequest (example_request\<lparr>meta := [''screenshot'' \<mapsto> PBytes [137, 80, 78, 71]]\<rparr>),
      [Call 0 (Set_page_load_timeout (PFloat 180)),
       Call 0 (Add_cookie (PDict [(PStr ''name'', PStr ''k''), (PStr ''value'', PStr ''v'')])),
       Call 0 (Get (PStr ''http://a.test/'')),
       Call 0 (WebDriverWait_until (PInt 10) (PCallable ''title_is'')),
       Call 0 Get_screenshot_as_png,
       Call 0 (Handle_selenium_scripts (PList [PDict [(PStr ''script'', PStr ''window.scrollTo(0, 0)'')]])),
       Call 0 Read_browser_state]) \<and>
   truthy (screenshot example_request) \<and>
   meta (example_request\<lparr>meta := [''screenshot'' \<mapsto> PBytes [137, 80, 78, 71]]\<rparr>) ''screenshot'' =
     Some (PBytes [137, 80, 78, 71]) \<and>
   \<not> truthy (screenshot plain_selenium_request) \<and>
   process_request example_env example_middleware (SeleniumRequest plain_selenium_request) [] =
     (Inr (Some \<lparr>browser_state = PStr ''<html></html>'', of_request = plain_selenium_request\<rparr>),
      SeleniumRequest plain_selenium_request,
      [Call 0 (Set_page_load_timeout (PInt 5)),
       Call 0 (Get (PStr ''http://a.test/'')),
       Call 0 Read_browser_state]) \<and>
   self_driver example_middleware = Some 0 \<and>
   cookie_arguments (cookies example_request) =
     Some [PDict [(PStr ''name'', PStr ''k''), (PStr ''value'', PStr ''v'')]] \<and>
   exec example_env 0
     (Set_page_load_timeout (page_load_timeout example_middleware example_request) #
      map Add_cookie [PDict [(PStr ''name'', PStr ''k''), (PStr ''value'', PStr ''v'')]] @
      Get (url example_request) # wait_ops example_request) [] =
     (None,
      [Call 0 (Set_page_load_timeout (PFloat 180)),
       Call 0 (Add_cookie (PDict [(PStr ''name'', PStr ''k''), (PStr ''value'', PStr ''v'')])),
       Call 0 (Get (PStr ''http://a.test/'')),
       Call 0 (WebDriverWait_until (PInt 10) (PCallable ''title_is''))]) \<and>
   example_env
     [Call 0 (Set_page_load_timeout (PFloat 180)),
      Call 0 (Add_cookie (PDict [(PStr ''name'', PStr ''k''), (PStr ''value'', PStr ''v'')])),
      Call 0 (Get (PStr ''http://a.test/'')),
      Call 0 (WebDriverWait_until (PInt 10) (PCallable ''title_is''))]
     (Call 0 Get_screenshot_as_png) = Inr (PBytes [137, 80, 78, 71])"
  using conjunct1 [OF screenshot_step_frame [OF example_run]]
    conjunct1 [OF conjunct2 [OF screenshot_step_frame [OF plain_run]]] example_run plain_run
  by (simp add: example_request_def plain_selenium_request_def example_env_def
      cookie_arguments_def page_load_timeout_def example_middleware_def wait_ops_def)

section \<open>The wait condition\<close>

lemma take_prefix_cases:
  "n \<le> length pre \<and> take n (pre @ x # post) = take n pre \<or>
   (\<exists>m. take n (pre @ x # post) = pre @ x # take m post)"
proof (cases "n \<le> length pre")
  case True
  then show ?thesis by simp
next
  case False
  then obtain m where "n - length pre = Suc m" by (cases "n - length pre") auto
  with False have "take n (pre @ x # post) = pre @ x # take m post" by simp
  then show ?thesis by blast
qed

lemma attempted_ops_wait:
  "truthy (wait_until r) \<Longrightarrow> cookie_arguments (cookies r) = Some cs \<Longrightarrow>
     attempted_ops self r =
       (Set_page_load_timeout (page_load_timeout self r) # map Add_cookie cs @ [Get (url r)]) @
       WebDriverWait_until (wait_time r) (wait_until r) #
       (screenshot_ops r @ (case scripts_ops r of None \<Rightarrow> [] | Some ss \<Rightarrow> ss @ [Read_browser_state]))"
  by (simp add: attempted_ops_def wait_ops_def)

lemma no_wait_without_condition:
  "\<not> truthy (wait_until r) \<Longrightarrow> x \<in> set (attempted_ops self r) \<Longrightarrow> \<not> is_wait (Call d x)"
  by (auto simp: attempted_ops_def wait_ops_def screenshot_ops_def scripts_ops_def
      split: option.splits if_splits)

lemma no_wait_after:
  "x \<in> set (screenshot_ops r @ (case scripts_ops r of None \<Rightarrow> [] | Some ss \<Rightarrow> ss @ [Read_browser_state]))
     \<Longrightarrow> \<not> is_wait (Call d x)"
  by (auto simp: screenshot_ops_def scripts_ops_def split: option.splits if_splits)

lemma no_wait_before:
  "x \<in> set (Set_page_load_timeout t # map Add_cookie cs @ [Get u]) \<Longrightarrow>
     \<not> is_wait (Call d x) \<and> code_order_rank (Call d x) \<le> 2"
  by auto

lemma filter_wait_split:
  assumes "\<And>x. x \<in> set pre \<Longrightarrow> \<not> is_wait (Call d x)"
    and "\<And>x. x \<in> set post \<Longrightarrow> \<not> is_wait (Call d x)"
  shows "filter is_wait (map (Call d) (pre @ WebDriverWait_until t c # take m post)) =
           [Call d (WebDriverWait_until t c)]"
proof -
  have "filter is_wait (map (Call d) pre) = []"
    using assms(1) by (auto simp: filter_empty_conv)
  moreover have "filter is_wait (map (Call d) (take m post)) = []"
    using assms(2) by (auto simp: filter_empty_conv dest: in_set_takeD)
  ultimately show ?thesis by simp
qed

lemma ranks_before_wait:
  "\<forall>a\<in>set (map (Call d) (take n (Set_page_load_timeout t # map Add_cookie cs @ [Get u]))).
     code_order_rank a \<le> 2"
  using no_wait_before [of _ t cs u d] by (auto dest!: in_set_takeD)

text \<open>
  Claim C5: the middleware does not evaluate a wait condition itself. For every
  \<^verbatim>\<open>SeleniumRequest\<close> with a true \<^verbatim>\<open>wait_until\<close>, whenever the timeout, the
  cookies and the navigation return, the very next action of \<^verbatim>\<open>process_request\<close>
  is the call of the driver's \<^verbatim>\<open>WebDriverWait\<close> with the \<^verbatim>\<open>wait_time\<close> and the
  \<^verbatim>\<open>wait_until\<close> of the request as they are, on the driver of the middleware; it
  is the only wait of the run, and an exception of the wait leaves the method as it
  is. The only runs without that call raise before the wait is reached: the driver
  is missing, the cookies cannot be read, or one of the timeout, cookie and
  navigation operations raised. With a false \<^verbatim>\<open>wait_until\<close> no wait is performed
  in any run.
\<close>

theorem wait_delegated:
  assumes run: "process_request env self (SeleniumRequest r) w = (res, q, w')"
  shows "(\<not> truthy (wait_until r) \<longrightarrow> filter is_wait (drop (length w) w') = []) \<and>
         (truthy (wait_until r) \<longrightarrow>
            (\<exists>d. self_driver self = Some d \<and>
               filter is_wait (drop (length w) w') =
                 [Call d (WebDriverWait_until (wait_time r) (wait_until r))])
          \<or> ((\<exists>e. res = Inl e) \<and> (\<forall>a\<in>set (drop (length w) w'). code_order_rank a \<le> 2) \<and>
              (self_driver self = None \<or> cookie_arguments (cookies r) = None \<or>
               (w' \<noteq> w \<and> (\<exists>e0. env (butlast w') (last w') = Inl e0))))) \<and>
         (\<forall>d cs h.
            self_driver self = Some d \<and> cookie_arguments (cookies r) = Some cs \<and>
            truthy (wait_until r) \<and>
            exec env d (Set_page_load_timeout (page_load_timeout self r) # map Add_cookie cs @
                         [Get (url r)]) w = (None, h) \<longrightarrow>
            take (Suc (length h)) w' =
              h @ [Call d (WebDriverWait_until (wait_time r) (wait_until r))] \<and>
            filter is_wait (drop (length w) w') =
              [Call d (WebDriverWait_until (wait_time r) (wait_until r))] \<and>
            (\<forall>e. env h (Call d (WebDriverWait_until (wait_time r) (wait_until r))) = Inl e \<longrightarrow>
               res = Inl e \<and>
               w' = h @ [Call d (WebDriverWait_until (wait_time r) (wait_until r))]))"
proof -
  from process_request_selenium [OF run] obtain r' where
    sel: "process_selenium_request env self r w = (res, r', w')" by blast
  show ?thesis
  proof (cases "self_driver self")
    case None
    from sel process_selenium_request_no_driver [OF None, of env r w] None show ?thesis by auto
  next
    case (Some d)
    let ?ops = "attempted_ops self r"
    let ?wt = "WebDriverWait_until (wait_time r) (wait_until r)"
    let ?post = "screenshot_ops r @ (case scripts_ops r of None \<Rightarrow> [] | Some ss \<Rightarrow> ss @ [Read_browser_state])"
    note ok = master [OF Some sel]
    note ex = outcome_exec [OF ok]
    from process_world [OF Some sel] obtain n where
      w': "w' = w @ map (Call d) (take n ?ops)" by blast
    then have new: "drop (length w) w' = map (Call d) (take n ?ops)" by simp
    have falsy: "filter is_wait (drop (length w) w') = []" if "\<not> truthy (wait_until r)"
      unfolding new using no_wait_without_condition [OF that, of _ self d]
      by (auto simp: filter_empty_conv dest: in_set_takeD)
    from ok consider
        e0 where "exec env d ?ops w = (Some e0, w')" "\<exists>e. res = Inl e"
      | "exec env d ?ops w = (None, w')" "cookie_arguments (cookies r) = None" "\<exists>e. res = Inl e"
      | "exec env d ?ops w = (None, w')" "cookie_arguments (cookies r) \<noteq> None"
      by (auto simp: outcome_ok_def)
    note outcome_cases = this
    have truthy: "filter is_wait (drop (length w) w') = [Call d ?wt]
          \<or> ((\<exists>e. res = Inl e) \<and> (\<forall>a\<in>set (drop (length w) w'). code_order_rank a \<le> 2) \<and>
              (self_driver self = None \<or> cookie_arguments (cookies r) = None \<or>
               (w' \<noteq> w \<and> (\<exists>e0. env (butlast w') (last w') = Inl e0))))"
      if t: "truthy (wait_until r)"
    proof (cases "cookie_arguments (cookies r)")
      case None
      then have o: "?ops = [Set_page_load_timeout (page_load_timeout self r)]"
        by (simp add: attempted_ops_def)
      have rk: "\<forall>a\<in>set (drop (length w) w'). code_order_rank a \<le> 2"
        unfolding new o by (auto dest: in_set_takeD)
      from outcome_cases have "\<exists>e. res = Inl e"
      proof cases
        case 1 then show ?thesis by simp
      next
        case 2 then show ?thesis by simp
      next
        case 3 with None show ?thesis by simp
      qed
      with rk None show ?thesis by blast
    next
      case (Some cs)
      let ?pre = "Set_page_load_timeout (page_load_timeout self r) # map Add_cookie cs @ [Get (url r)]"
      note a = attempted_ops_wait [OF t Some, of self]
      have full: "filter is_wait (map (Call d) (?pre @ ?wt # take m ?post)) = [Call d ?wt]" for m
        by (rule filter_wait_split) (rule conjunct1 [OF no_wait_before], assumption, rule no_wait_after)
      from outcome_cases show ?thesis
      proof cases
        case 1
        from exec_Some_longer [OF 1(1)] have ne: "w' \<noteq> w" by auto
        from exec_Some_raised [OF 1(1)] have rs: "\<exists>e0. env (butlast w') (last w') = Inl e0" by blast
        from take_prefix_cases [of n ?pre ?wt ?post]
        consider "take n ?ops = take n ?pre" | m where "take n ?ops = ?pre @ ?wt # take m ?post"
          unfolding a by blast
        then show ?thesis
        proof cases
          case 1
          have "\<forall>a\<in>set (drop (length w) w'). code_order_rank a \<le> 2"
            unfolding new 1 by (rule ranks_before_wait)
          with \<open>\<exists>e. res = Inl e\<close> ne rs show ?thesis by blast
        next
          case 2
          have "filter is_wait (drop (length w) w') = [Call d ?wt]"
            unfolding new 2 by (rule full)
          then show ?thesis by blast
        qed
      next
        case 2
        with Some show ?thesis by simp
      next
        case 3
        from exec_None [OF 3(1)] have "drop (length w) w' = map (Call d) (?pre @ ?wt # take (length ?post) ?post)"
          unfolding a by simp
        with full [of "length ?post"] show ?thesis by simp
      qed
    qed
    have fwd: "take (Suc (length h)) w' = h @ [Call d' ?wt] \<and>
            filter is_wait (drop (length w) w') = [Call d' ?wt] \<and>
            (\<forall>e. env h (Call d' ?wt) = Inl e \<longrightarrow> res = Inl e \<and> w' = h @ [Call d' ?wt])"
      if h: "self_driver self = Some d'" "cookie_arguments (cookies r) = Some cs"
        "truthy (wait_until r)"
        "exec env d' (Set_page_load_timeout (page_load_timeout self r) # map Add_cookie cs @
                         [Get (url r)]) w = (None, h)"
      for d' cs h
    proof -
      let ?pre = "Set_page_load_timeout (page_load_timeout self r) # map Add_cookie cs @ [Get (url r)]"
      from h(1) Some have dd: "d' = d" by simp
      note a = attempted_ops_wait [OF h(3) h(2), of self]
      note hh = h(4) [unfolded dd]
      from exec_reach [OF hh, of ?wt ?post] obtain m where
        "snd (exec env d ?ops w) = h @ Call d ?wt # map (Call d) (take m ?post)"
        unfolding a by blast
      with ex have wf: "w' = h @ Call d ?wt # map (Call d) (take m ?post)" by simp
      from exec_None [OF hh] have hw: "h = w @ map (Call d) ?pre" .
      have 1: "take (Suc (length h)) w' = h @ [Call d ?wt]" unfolding wf by simp
      have "drop (length w) w' = map (Call d) (?pre @ ?wt # take m ?post)"
        unfolding wf hw by simp
      then have 2: "filter is_wait (drop (length w) w') = [Call d ?wt]"
        using filter_wait_split [of ?pre d ?post "wait_time r" "wait_until r" m,
            OF conjunct1 [OF no_wait_before] no_wait_after]
        by simp
      have 3: "res = Inl e \<and> w' = h @ [Call d ?wt]" if "env h (Call d ?wt) = Inl e" for e
      proof -
        have "exec env d ?ops w = (Some e, h @ [Call d ?wt])"
          unfolding a by (rule exec_reach_raises [OF hh that])
        from outcome_raised_forward [OF ok this] show ?thesis by simp
      qed
      from 1 2 3 show ?thesis unfolding dd by blast
    qed
    from falsy truthy fwd Some show ?thesis by blast
  qed
qed

theorem wait_delegated_witness:
  "truthy (wait_until example_request) \<and>
   filter is_wait
     (drop (length ([] :: world))
        (snd (snd (process_request example_env example_middleware (SeleniumRequest example_request) [])))) =
     [Call 0 (WebDriverWait_until (PInt 10) (PCallable ''title_is''))] \<and>
   self_driver example_middleware = Some 0 \<and>
   cookie_arguments (cookies example_request) =
     Some [PDict [(PStr ''name'', PStr ''k''), (PStr ''value'', PStr ''v'')]] \<and>
   exec example_env 0
     (Set_page_load_timeout (page_load_timeout example_middleware example_request) #
      map Add_cookie [PDict [(PStr ''name'', PStr ''k''), (PStr ''value'', PStr ''v'')]] @
      [Get (url example_request)]) [] =
     (None,
      [Call 0 (Set_page_load_timeout (PFloat 180)),
       Call 0 (Add_cookie (PDict [(PStr ''name'', PStr ''k''), (PStr ''value'', PStr ''v'')])),
       Call 0 (Get (PStr ''http://a.test/''))]) \<and>
   take 4 (snd (snd (process_request example_env example_middleware (SeleniumRequest example_request) []))) =
     [Call 0 (Set_page_load_timeout (PFloat 180)),
      Call 0 (Add_cookie (PDict [(PStr ''name'', PStr ''k''), (PStr ''value'', PStr ''v'')])),
      Call 0 (Get (PStr ''http://a.test/'')),
      Call 0 (WebDriverWait_until (PInt 10) (PCallable ''title_is''))]"
  using wait_delegated [OF example_run] example_run
  by (simp add: example_request_def example_env_def cookie_arguments_def page_load_timeout_def
      example_middleware_def)

section \<open>Cookies given as a dictionary\<close>

lemma passed_cookies_append: "passed_cookies (xs @ ys) = passed_cookies xs @ passed_cookies ys"
  by (induction xs rule: passed_cookies.induct) auto

lemma passed_cookies_add: "passed_cookies (map (Call d) (map Add_cookie cs)) = cs"
  by (induction cs) auto

lemma passed_cookies_take_nil: "passed_cookies xs = [] \<Longrightarrow> passed_cookies (take k xs) = []"
proof -
  assume a: "passed_cookies xs = []"
  have "passed_cookies xs = passed_cookies (take k xs) @ passed_cookies (drop k xs)"
    by (metis append_take_drop_id passed_cookies_append)
  with a show ?thesis by simp
qed

lemma passed_cookies_rest:
  "passed_cookies (map (Call d)
     (Get u # wait_ops r @ screenshot_ops r @
       (case scripts_ops r of None \<Rightarrow> [] | Some ss \<Rightarrow> ss @ [Read_browser_state]))) = []"
  by (auto simp: wait_ops_def screenshot_ops_def scripts_ops_def passed_cookies_append
      split: option.splits)

lemma passed_cookies_attempted:
  assumes "cookie_arguments (cookies r) = Some cs"
  shows "passed_cookies (map (Call d) (take n (attempted_ops self r))) = take (n - 1) cs"
proof -
  let ?rest = "Get (url r) # wait_ops r @ screenshot_ops r @
       (case scripts_ops r of None \<Rightarrow> [] | Some ss \<Rightarrow> ss @ [Read_browser_state])"
  have a: "attempted_ops self r =
      [Set_page_load_timeout (page_load_timeout self r)] @ map Add_cookie cs @ ?rest"
    using assms by (simp add: attempted_ops_def)
  have r3: "passed_cookies (map (Call d) (take (n - 1 - length cs) ?rest)) = []"
    unfolding take_map [symmetric] by (rule passed_cookies_take_nil [OF passed_cookies_rest])
  have r2: "passed_cookies (map (Call d) (take (n - 1) (map Add_cookie cs))) = take (n - 1) cs"
    using passed_cookies_add [of d "take (n - 1) cs"] by (simp add: take_map)
  have r1: "passed_cookies (map (Call d) (take n [Set_page_load_timeout (page_load_timeout self r)])) = []"
    by (cases n) auto
  have t: "take n (attempted_ops self r) =
      take n [Set_page_load_timeout (page_load_timeout self r)] @
      take (n - 1) (map Add_cookie cs) @ take (n - 1 - length cs) ?rest"
    unfolding a by (cases n) simp_all
  show ?thesis
    unfolding t map_append passed_cookies_append r1 r2 r3 by simp
qed

lemma inject_cookies_dict:
  "cookies r = PDict kvs \<Longrightarrow> inject_cookies env self r w = add_cookies env self (map fst kvs) w"
  by (simp add: inject_cookies_def)

text \<open>
  Claim C8: when the \<^verbatim>\<open>cookies\<close> of a \<^verbatim>\<open>SeleniumRequest\<close> are a dictionary, the
  test for \<^verbatim>\<open>__iter__\<close> succeeds, so the loop of the first branch runs and the
  branch that wraps each pair into a name and value cookie is not reached: the cookie
  step is the loop over the keys. In every run the values passed to
  \<^verbatim>\<open>add_cookie\<close> are the keys of the dictionary alone, in order, up to the first
  call that raises, and all of them when the method returns.
\<close>

theorem dict_cookies_pass_keys:
  assumes c: "cookies r = PDict kvs"
    and run: "process_request env self (SeleniumRequest r) w = (res, q, w')"
  shows "hasattr_iter (cookies r) \<and>
         inject_cookies env self r = add_cookies env self (map fst kvs) \<and>
         (\<exists>n\<le>length kvs. passed_cookies (drop (length w) w') = take n (map fst kvs)) \<and>
         (\<forall>v. res = Inr v \<longrightarrow> passed_cookies (drop (length w) w') = map fst kvs)"
proof -
  from process_request_selenium [OF run] obtain r' where
    sel: "process_selenium_request env self r w = (res, r', w')" by blast
  have i: "inject_cookies env self r = add_cookies env self (map fst kvs)"
    using inject_cookies_dict [OF c] by (intro ext) simp
  have h: "hasattr_iter (cookies r)" using c by simp
  have cs: "cookie_arguments (cookies r) = Some (map fst kvs)"
    using c by (simp add: cookie_arguments_def)
  show ?thesis
  proof (cases "self_driver self")
    case None
    from sel process_selenium_request_no_driver [OF None, of env r w]
    have "res = Inl (AttributeError ''driver'')" "passed_cookies (drop (length w) w') = take 0 (map fst kvs)"
      by auto
    with i h show ?thesis by (metis Inl_Inr_False le0)
  next
    case (Some d)
    from process_world [OF Some sel] obtain n where
      w': "w' = w @ map (Call d) (take n (attempted_ops self r))" by blast
    have p: "passed_cookies (drop (length w) w') = take (n - 1) (map fst kvs)"
      unfolding w' using passed_cookies_attempted [OF cs, of d n self] by simp
    have "take (n - 1) (map fst kvs) = take (min (n - 1) (length kvs)) (map fst kvs)"
      by (simp add: min_def)
    with p have ex: "\<exists>n\<le>length kvs. passed_cookies (drop (length w) w') = take n (map fst kvs)"
      by (metis min.cobounded2)
    have full: "\<forall>v. res = Inr v \<longrightarrow> passed_cookies (drop (length w) w') = map fst kvs"
    proof (intro allI impI)
      fix v assume v: "res = Inr v"
      from outcome_returns [OF master [OF Some sel [unfolded v]]]
      have "drop (length w) w' = map (Call d) (take (length (attempted_ops self r)) (attempted_ops self r))"
        by simp
      then have "passed_cookies (drop (length w) w') =
          take (length (attempted_ops self r) - 1) (map fst kvs)"
        using passed_cookies_attempted [OF cs, of d "length (attempted_ops self r)" self] by simp
      moreover have "length kvs \<le> length (attempted_ops self r) - 1"
        using cs by (simp add: attempted_ops_def)
      ultimately show "passed_cookies (drop (length w) w') = map fst kvs" by simp
    qed
    from i h ex full show ?thesis by blast
  qed
qed

theorem dict_cookies_pass_keys_witness:
  "cookies dict_cookie_request = PDict [(PStr ''session'', PStr ''abc''), (PStr ''lang'', PStr ''en'')] \<and>
   hasattr_iter (cookies dict_cookie_request) \<and>
   passed_cookies
     (drop (length ([] :: world))
        (snd (snd (process_request timeout_env example_middleware (SeleniumRequest dict_cookie_request) [])))) =
     [PStr ''session'', PStr ''lang'']"
proof -
  have c: "cookies dict_cookie_request =
      PDict [(PStr ''session'', PStr ''abc''), (PStr ''lang'', PStr ''en'')]"
    by (simp add: dict_cookie_request_def)
  from dict_cookies_pass_keys [OF c timeout_run] c timeout_run show ?thesis by simp
qed

section \<open>Lemmas on the construction\<close>

lemma stretch_perform:
  "perform env a w = (res, w') \<Longrightarrow> P a \<Longrightarrow> stretch P b env w res w'"
  by (auto simp: stretch_def perform_def)

lemma stretch_skip: "stretch P b env w (Inr v) w"
  by (simp add: stretch_def)

lemma stretch_bind:
  assumes "stretch P b env w (Inr v) w1" and "stretch P b env w1 res w2"
  shows "stretch P b env w res w2"
proof -
  from assms(1) obtain ops1 where 1: "w1 = w @ ops1" "list_all P ops1"
    unfolding stretch_def by blast
  from assms(2) obtain ops2 where 2: "w2 = w1 @ ops2" "list_all P ops2"
    "\<forall>e. res = Inl e \<longrightarrow>
           (b \<and> e = TypeError ''object is not iterable'') \<or>
           (ops2 \<noteq> [] \<and> env (butlast w2) (last w2) = Inl e)"
    unfolding stretch_def by blast
  from 1 2 have "w2 = w @ (ops1 @ ops2)" "list_all P (ops1 @ ops2)"
    "\<forall>e. res = Inl e \<longrightarrow>
           (b \<and> e = TypeError ''object is not iterable'') \<or>
           (ops1 @ ops2 \<noteq> [] \<and> env (butlast w2) (last w2) = Inl e)"
    by (simp, simp, blast)
  then show ?thesis unfolding stretch_def by blast
qed

lemma stretch_weaken:
  assumes "stretch P b env w res w'" and "\<And>a. P a \<Longrightarrow> Q a" and "b \<Longrightarrow> c"
  shows "stretch Q c env w res w'"
proof -
  from assms(1) obtain ops where 1: "w' = w @ ops" "list_all P ops"
    "\<forall>e. res = Inl e \<longrightarrow>
           (b \<and> e = TypeError ''object is not iterable'') \<or>
           (ops \<noteq> [] \<and> env (butlast w') (last w') = Inl e)"
    unfolding stretch_def by blast
  from 1(2) assms(2) have "list_all Q ops" by (simp add: list_all_iff)
  moreover from 1(3) assms(3) have "\<forall>e. res = Inl e \<longrightarrow>
           (c \<and> e = TypeError ''object is not iterable'') \<or>
           (ops \<noteq> [] \<and> env (butlast w') (last w') = Inl e)" by blast
  ultimately show ?thesis using 1(1) unfolding stretch_def by blast
qed

lemma add_arguments_stretch:
  "add_arguments env args w = (res, w') \<Longrightarrow> stretch is_setup False env w res w'"
proof (induction args arbitrary: w)
  case Nil
  then show ?case by (auto simp: stretch_def)
next
  case (Cons a args)
  obtain r1 w1 where p: "perform env (Add_argument a) w = (r1, w1)" by force
  have s1: "stretch is_setup False env w r1 w1" by (rule stretch_perform [OF p]) simp
  show ?case
  proof (cases r1)
    case (Inl e)
    with Cons.prems p have "res = Inl e" "w' = w1" by simp_all
    with s1 Inl show ?thesis by (simp add: stretch_def)
  next
    case (Inr v)
    with Cons.prems p have "add_arguments env args w1 = (res, w')" by simp
    from stretch_bind [OF s1 [unfolded Inr] Cons.IH [OF this]] show ?thesis .
  qed
qed

lemma stretch_cons:
  assumes "P a" and "stretch P b env (w @ [a]) res w'"
  shows "stretch P b env w res w' \<and> w' \<noteq> w"
proof -
  from assms(2) obtain ops where 1: "w' = (w @ [a]) @ ops" "list_all P ops"
    "\<forall>e. res = Inl e \<longrightarrow>
           (b \<and> e = TypeError ''object is not iterable'') \<or>
           (ops \<noteq> [] \<and> env (butlast w') (last w') = Inl e)"
    unfolding stretch_def by blast
  from 1 assms(1) have "w' = w @ (a # ops)" "list_all P (a # ops)"
    "\<forall>e. res = Inl e \<longrightarrow>
           (b \<and> e = TypeError ''object is not iterable'') \<or>
           (a # ops \<noteq> [] \<and> env (butlast w') (last w') = Inl e)"
    by (simp, simp, blast)
  then have "stretch P b env w res w'" unfolding stretch_def by blast
  moreover from 1(1) have "w' \<noteq> w" by simp
  ultimately show ?thesis ..
qed

lemma init_cases:
  assumes run: "init env dn dp bp ce da tmo w = (res, w')"
  shows "(\<exists>e. res = Inl e \<and> stretch is_setup (\<not> hasattr_iter da) env w (Inl e :: exn + pyval) w' \<and> w' \<noteq> w)
       \<or> (\<exists>w5 v. stretch is_setup (\<not> hasattr_iter da) env w (Inr v :: exn + pyval) w5 \<and> w5 \<noteq> w \<and>
             start_driver env dn dp ce tmo w5 = (res, w'))"
proof -
  let ?b = "\<not> hasattr_iter da"
  let ?a = "Import_class dn ''webdriver'' ''WebDriver''"
  obtain r1 w1 where p1: "perform env ?a w = (r1, w1)" by force
  then have w1: "w1 = w @ [?a]" by (simp add: perform_def)
  have s1: "stretch is_setup ?b env w r1 w1" by (rule stretch_perform [OF p1]) simp
  show ?thesis
  proof (cases r1)
    case (Inl e)
    with run p1 have "res = Inl e" "w' = w1" by (simp_all add: init_def)
    with s1 Inl w1 show ?thesis by simp
  next
    case v1: (Inr v1)
    have a1: "stretch is_setup ?b env w1 (Inr v1 :: exn + pyval) w1" by (rule stretch_skip)
    obtain r2 w2 where p2: "perform env (Import_class dn ''options'' ''Options'') w1 = (r2, w2)" by force
    have s2: "stretch is_setup ?b env w1 r2 w2" by (rule stretch_perform [OF p2]) simp
    show ?thesis
    proof (cases r2)
      case (Inl e)
      with run p1 v1 p2 have r: "res = Inl e" "w' = w2" by (simp_all add: init_def)
      from stretch_cons [OF _ stretch_bind [OF a1 s2 [unfolded Inl], unfolded w1]]
      show ?thesis unfolding r by simp
    next
      case v2: (Inr v2)
      note a2 = stretch_bind [OF a1 s2 [unfolded v2]]
      obtain r3 w3 where p3: "perform env New_options w2 = (r3, w3)" by force
      have s3: "stretch is_setup ?b env w2 r3 w3" by (rule stretch_perform [OF p3]) simp
      show ?thesis
      proof (cases r3)
        case (Inl e)
        with run p1 v1 p2 v2 p3 have r: "res = Inl e" "w' = w3" by (simp_all add: init_def)
        from stretch_cons [OF _ stretch_bind [OF a2 s3 [unfolded Inl], unfolded w1]]
        show ?thesis unfolding r by simp
      next
        case v3: (Inr v3)
        note a3 = stretch_bind [OF a2 s3 [unfolded v3]]
        obtain r4 w4 where p4: "(if truthy bp then perform env (Set_binary_location bp) w3
            else (Inr PNone, w3)) = (r4, w4)" by force
        have s4: "stretch is_setup ?b env w3 r4 w4"
        proof (cases "truthy bp")
          case True
          with p4 have "perform env (Set_binary_location bp) w3 = (r4, w4)" by simp
          then show ?thesis by (rule stretch_perform) simp
        next
          case False
          with p4 show ?thesis by (auto intro: stretch_skip)
        qed
        show ?thesis
        proof (cases r4)
          case (Inl e)
          with run p1 v1 p2 v2 p3 v3 p4 have r: "res = Inl e" "w' = w4" by (simp_all add: init_def)
          from stretch_cons [OF _ stretch_bind [OF a3 s4 [unfolded Inl], unfolded w1]]
          show ?thesis unfolding r by simp
        next
          case v4: (Inr v4)
          note a4 = stretch_bind [OF a3 s4 [unfolded v4]]
          obtain r5 w5 where p5: "(if hasattr_iter da then add_arguments env (iter_elements da) w4
              else (Inl (TypeError ''object is not iterable''), w4)) = (r5, w5)" by force
          have s5: "stretch is_setup ?b env w4 r5 w5"
          proof (cases "hasattr_iter da")
            case True
            with p5 have "add_arguments env (iter_elements da) w4 = (r5, w5)" by simp
            from stretch_weaken [OF add_arguments_stretch [OF this], of is_setup ?b] show ?thesis by simp
          next
            case False
            with p5 have "r5 = Inl (TypeError ''object is not iterable'')" "w5 = w4" by simp_all
            with False show ?thesis by (simp add: stretch_def)
          qed
          show ?thesis
          proof (cases r5)
            case (Inl e)
            with run p1 v1 p2 v2 p3 v3 p4 v4 p5 have r: "res = Inl e" "w' = w5"
              by (simp_all add: init_def)
            from stretch_cons [OF _ stretch_bind [OF a4 s5 [unfolded Inl], unfolded w1]]
            show ?thesis unfolding r by simp
          next
            case v5: (Inr v5)
            with run p1 v1 p2 v2 p3 v3 p4 v4 p5
            have r: "start_driver env dn dp ce tmo w5 = (res, w')" by (simp add: init_def)
            from stretch_cons [OF _ stretch_bind [OF a4 s5 [unfolded v5], unfolded w1]]
            have "stretch is_setup ?b env w (Inr v5 :: exn + pyval) w5 \<and> w5 \<noteq> w" by simp
            with r show ?thesis by blast
          qed
        qed
      qed
    qed
  qed
qed

lemma start_driver_cases:
  "start_driver env dn dp ce tmo w = (res, w') \<Longrightarrow>
    (\<exists>e. res = Inl e \<and> stretch (\<lambda>a. is_setup a \<or> is_creation a) False env w (Inl e :: exn + pyval) w' \<and>
          w' \<noteq> w \<and> length (filter is_creation (drop (length w) w')) \<le> 1)
  \<or> (\<exists>pre c. res = Inr \<lparr>self_timeout = tmo, self_driver = Some (drivers_created w)\<rparr> \<and>
          w' = w @ pre @ [c] \<and> list_all is_setup pre \<and> is_creation c)
  \<or> (res = Inr \<lparr>self_timeout = tmo, self_driver = None\<rparr> \<and> w' = w \<and> dp = PNone \<and> ce = PNone)"
  by (auto simp: start_driver_def perform_def stretch_def drivers_created_def butlast_append
      split: if_splits prod.splits sum.splits)

lemma setup_not_creation: "list_all is_setup ops \<Longrightarrow> filter is_creation ops = []"
proof -
  have "is_setup a \<Longrightarrow> \<not> is_creation a" for a by (cases a) auto
  then show "list_all is_setup ops \<Longrightarrow> filter is_creation ops = []"
    by (auto simp: filter_empty_conv list_all_iff)
qed



lemma stretch_world:
  "stretch P b env w res w' \<Longrightarrow> \<exists>ops. w' = w @ ops \<and> list_all P ops"
  unfolding stretch_def by blast

lemma stretch_raised:
  "stretch P b env w (Inl e) w' \<Longrightarrow>
     (b \<and> e = TypeError ''object is not iterable'') \<or> (w' \<noteq> w \<and> env (butlast w') (last w') = Inl e)"
  unfolding stretch_def by auto


lemma from_crawler_init:
  assumes "settings_getfloat crawler ''DOWNLOAD_TIMEOUT'' = Inr tmo" "\<not> not_configured crawler"
  shows "from_crawler env crawler w =
     (case init env (settings_get crawler ''SELENIUM_DRIVER_NAME'')
             (settings_get crawler ''SELENIUM_DRIVER_EXECUTABLE_PATH'')
             (settings_get crawler ''SELENIUM_BROWSER_EXECUTABLE_PATH'')
             (settings_get crawler ''SELENIUM_COMMAND_EXECUTOR'')
             (settings_get crawler ''SELENIUM_DRIVER_ARGUMENTS'') tmo w of
        (Inl e, w') \<Rightarrow> (Inl e, w')
      | (Inr m, w') \<Rightarrow> (Inr m, w' @ [Signals_connect (Bound_spider_closed m) Signal_spider_closed]))"
  using assms by (auto simp: from_crawler_def not_configured_def Let_def)

lemma from_crawler_cases:
  assumes gf: "settings_getfloat crawler ''DOWNLOAD_TIMEOUT'' = Inr tmo"
    and nc: "\<not> not_configured crawler"
    and run: "from_crawler env crawler w = (res, w')"
  shows "(\<exists>e ops. res = Inl e \<and> w' = w @ ops \<and> ops \<noteq> [] \<and>
            list_all (\<lambda>a. is_setup a \<or> is_creation a) ops \<and>
            length (filter is_creation ops) \<le> 1 \<and>
            ((\<not> hasattr_iter (settings_get crawler ''SELENIUM_DRIVER_ARGUMENTS'') \<and>
                e = TypeError ''object is not iterable'') \<or>
             env (butlast w') (last w') = Inl e))
       \<or> (\<exists>m pre c. res = Inr m \<and>
            m = \<lparr>self_timeout = tmo, self_driver = Some (drivers_created w)\<rparr> \<and>
            w' = w @ pre @ [c, Signals_connect (Bound_spider_closed m) Signal_spider_closed] \<and>
            list_all is_setup pre \<and> is_creation c)"
proof -
  let ?dn = "settings_get crawler ''SELENIUM_DRIVER_NAME''"
  let ?dp = "settings_get crawler ''SELENIUM_DRIVER_EXECUTABLE_PATH''"
  let ?bp = "settings_get crawler ''SELENIUM_BROWSER_EXECUTABLE_PATH''"
  let ?ce = "settings_get crawler ''SELENIUM_COMMAND_EXECUTOR''"
  let ?da = "settings_get crawler ''SELENIUM_DRIVER_ARGUMENTS''"
  let ?Q = "\<lambda>a. is_setup a \<or> is_creation a"
  obtain r0 w0 where i: "init env ?dn ?dp ?bp ?ce ?da tmo w = (r0, w0)" by force
  note fc = from_crawler_init [OF gf nc, of env w, unfolded i run]
  from init_cases [OF i] consider
      e where "r0 = Inl e" "stretch is_setup (\<not> hasattr_iter ?da) env w (Inl e :: exn + pyval) w0" "w0 \<noteq> w"
    | w5 v where "stretch is_setup (\<not> hasattr_iter ?da) env w (Inr v :: exn + pyval) w5" "w5 \<noteq> w"
        "start_driver env ?dn ?dp ?ce tmo w5 = (r0, w0)"
    by blast
  then show ?thesis
  proof cases
    case 1
    from fc 1(1) have r: "res = Inl e" "w' = w0" by simp_all
    from stretch_world [OF 1(2)] obtain ops where ops: "w0 = w @ ops" "list_all is_setup ops" by blast
    from ops 1(3) have ne: "ops \<noteq> []" by auto
    from ops(2) have q: "list_all ?Q ops" by (simp add: list_all_iff)
    from setup_not_creation [OF ops(2)] have c: "length (filter is_creation ops) \<le> 1" by simp
    from stretch_raised [OF 1(2)] r ops ne q c show ?thesis by blast
  next
    case 2
    from stretch_world [OF 2(1)] obtain ops5 where ops5: "w5 = w @ ops5" "list_all is_setup ops5" by blast
    from ops5 2(2) have ne5: "ops5 \<noteq> []" by auto
    from setup_not_creation [OF ops5(2)] have dc: "drivers_created w5 = drivers_created w"
      unfolding ops5(1) by (simp add: drivers_created_def)
    from start_driver_cases [OF 2(3)] consider
        e where "r0 = Inl e" "stretch ?Q False env w5 (Inl e :: exn + pyval) w0" "w0 \<noteq> w5"
          "length (filter is_creation (drop (length w5) w0)) \<le> 1"
      | pre c where "r0 = Inr \<lparr>self_timeout = tmo, self_driver = Some (drivers_created w5)\<rparr>"
          "w0 = w5 @ pre @ [c]" "list_all is_setup pre" "is_creation c"
      | "?dp = PNone" "?ce = PNone"
      by blast
    then show ?thesis
    proof cases
      case 1
      from fc 1(1) have r: "res = Inl e" "w' = w0" by simp_all
      from stretch_world [OF 1(2)] obtain ops where ops: "w0 = w5 @ ops" "list_all ?Q ops" by blast
      from ops5(2) have "list_all ?Q ops5" by (simp add: list_all_iff)
      with ops have q: "list_all ?Q (ops5 @ ops)" by simp
      from 1(4) ops(1) setup_not_creation [OF ops5(2)]
      have c: "length (filter is_creation (ops5 @ ops)) \<le> 1" by simp
      from stretch_raised [OF 1(2)] have "env (butlast w0) (last w0) = Inl e" by simp
      with r ops ops5 ne5 q c have "res = Inl e \<and> w' = w @ (ops5 @ ops) \<and> ops5 @ ops \<noteq> [] \<and>
            list_all ?Q (ops5 @ ops) \<and> length (filter is_creation (ops5 @ ops)) \<le> 1 \<and>
            env (butlast w') (last w') = Inl e" by simp
      then show ?thesis by blast
    next
      case 2
      let ?m = "\<lparr>self_timeout = tmo, self_driver = Some (drivers_created w)\<rparr>"
      from fc 2(1) dc have r: "res = Inr ?m"
        "w' = w0 @ [Signals_connect (Bound_spider_closed ?m) Signal_spider_closed]" by simp_all
      from ops5(2) 2(3) have "list_all is_setup (ops5 @ pre)" by simp
      moreover from r(2) 2(2) ops5(1)
      have "w' = w @ (ops5 @ pre) @ [c, Signals_connect (Bound_spider_closed ?m) Signal_spider_closed]"
        by simp
      ultimately show ?thesis using r(1) 2(4) by blast
    next
      case 3
      with nc show ?thesis by (simp add: not_configured_def)
    qed
  qed
qed

section \<open>Building the middleware from the crawler\<close>


lemma example_from_crawler:
  "from_crawler example_env example_crawler [] =
     (Inr example_middleware,
      [Import_class (PStr ''firefox'') ''webdriver'' ''WebDriver'',
       Import_class (PStr ''firefox'') ''options'' ''Options'',
       New_options,
       Add_argument (PStr ''-headless''),
       Import_class (PStr ''firefox'') ''service'' ''Service'',
       New_service (PStr ''/usr/bin/geckodriver''),
       New_driver,
       Signals_connect (Bound_spider_closed example_middleware) Signal_spider_closed])"
  by (simp add: from_crawler_def init_def start_driver_def perform_def example_env_def
      example_crawler_def example_middleware_def drivers_created_def Let_def)



text \<open>
  The loop of \<^verbatim>\<open>__init__\<close> over \<^verbatim>\<open>driver_arguments\<close> has no test for
  \<^verbatim>\<open>None\<close>: with \<^verbatim>\<open>SELENIUM_DRIVER_ARGUMENTS\<close> unset, and every action of the
  driver library returning, the constructor raises \<^verbatim>\<open>TypeError\<close> before a driver
  is started.
\<close>

lemma from_crawler_without_arguments:
  "from_crawler example_env no_arguments_crawler [] =
     (Inl (TypeError ''object is not iterable''),
      [Import_class (PStr ''firefox'') ''webdriver'' ''WebDriver'',
       Import_class (PStr ''firefox'') ''options'' ''Options'',
       New_options])"
  by (simp add: from_crawler_def init_def perform_def example_env_def
      no_arguments_crawler_def Let_def)

section \<open>One driver for the life of the middleware\<close>

lemma attempted_ops_no_quit: "Quit \<notin> set (attempted_ops self r)"
  by (auto simp: attempted_ops_def wait_ops_def screenshot_ops_def scripts_ops_def
      split: option.splits if_splits)

lemma process_request_calls:
  assumes d: "self_driver self = Some d"
    and run: "process_request env self q w = (res, q', w')"
  shows "\<exists>ops. w' = w @ ops \<and> list_all (on_driver d) ops \<and> filter is_quit ops = []"
proof (cases q)
  case (Request r)
  with run have "w' = w @ []" by (simp add: process_request_def)
  then show ?thesis by (intro exI [of _ "[]"]) simp
next
  case (SeleniumRequest r)
  from process_request_selenium [OF run [unfolded SeleniumRequest]] obtain r' where
    sel: "process_selenium_request env self r w = (res, r', w')" by blast
  from process_world [OF d sel] obtain n where
    w': "w' = w @ map (Call d) (take n (attempted_ops self r))" by blast
  have "list_all (on_driver d) (map (Call d) (take n (attempted_ops self r)))"
    by (simp add: list_all_iff)
  moreover have "filter is_quit (map (Call d) (take n (attempted_ops self r))) = []"
    using attempted_ops_no_quit [of self r]
    by (auto simp: filter_empty_conv dest!: in_set_takeD elim!: is_quit.elims)
  ultimately show ?thesis using w' by blast
qed

lemma spider_closed_world:
  "self_driver self = Some d \<Longrightarrow> snd (spider_closed env self w) = w @ [Call d Quit]"
  by (simp add: spider_closed_def driver_call_def perform_def)

lemma run_calls_world:
  assumes d: "self_driver self = Some d"
  shows "\<exists>ops. run_calls env self calls w = w @ ops \<and> list_all (on_driver d) ops \<and>
           length (filter is_quit ops) = length (filter is_spider_closed calls)"
proof (induction calls arbitrary: w)
  case Nil
  have "run_calls env self [] w = w @ []" by simp
  then show ?case by (intro exI [of _ "[]"]) simp
next
  case (Cons c calls)
  show ?case
  proof (cases c)
    case (Call_process_request q)
    obtain res q' w1 where p: "process_request env self q w = (res, q', w1)"
      by (metis prod_cases3)
    from process_request_calls [OF d p] obtain ops1 where
      1: "w1 = w @ ops1" "list_all (on_driver d) ops1" "filter is_quit ops1 = []" by blast
    from Cons.IH [of w1] obtain ops2 where
      2: "run_calls env self calls w1 = w1 @ ops2" "list_all (on_driver d) ops2"
         "length (filter is_quit ops2) = length (filter is_spider_closed calls)" by blast
    from p Call_process_request 1 2
    have "run_calls env self (c # calls) w = w @ (ops1 @ ops2) \<and> list_all (on_driver d) (ops1 @ ops2) \<and>
           length (filter is_quit (ops1 @ ops2)) = length (filter is_spider_closed (c # calls))"
      by simp
    then show ?thesis by blast
  next
    case Call_spider_closed
    from Cons.IH [of "w @ [Call d Quit]"] obtain ops2 where
      2: "run_calls env self calls (w @ [Call d Quit]) = (w @ [Call d Quit]) @ ops2"
         "list_all (on_driver d) ops2"
         "length (filter is_quit ops2) = length (filter is_spider_closed calls)" by blast
    from Call_spider_closed 2 spider_closed_world [OF d, of env w]
    have "run_calls env self (c # calls) w = w @ (Call d Quit # ops2) \<and>
           list_all (on_driver d) (Call d Quit # ops2) \<and>
           length (filter is_quit (Call d Quit # ops2)) = length (filter is_spider_closed (c # calls))"
      by simp
    then show ?thesis by blast
  qed
qed

lemma on_driver_not_creation: "list_all (on_driver d) ops \<Longrightarrow> filter is_creation ops = []"
proof -
  have "on_driver d a \<Longrightarrow> \<not> is_creation a" for a by (cases a) auto
  then show "list_all (on_driver d) ops \<Longrightarrow> filter is_creation ops = []"
    by (auto simp: filter_empty_conv list_all_iff)
qed

lemma from_crawler_returns_getfloat:
  "from_crawler env crawler w = (Inr m, w') \<Longrightarrow>
     \<exists>tmo. settings_getfloat crawler ''DOWNLOAD_TIMEOUT'' = Inr tmo"
  by (cases "settings_getfloat crawler ''DOWNLOAD_TIMEOUT''") (auto simp: from_crawler_def Let_def)

lemma from_crawler_returns_configured:
  "from_crawler env crawler w = (Inr m, w') \<Longrightarrow> \<not> not_configured crawler"
  by (cases "settings_getfloat crawler ''DOWNLOAD_TIMEOUT''")
     (auto simp: from_crawler_def Let_def not_configured_def split: if_splits)

text \<open>
  Claim C3, amended: the middleware owns exactly one driver for its whole life, and
  the driver is started when the middleware is built, not later. A successful
  \<^verbatim>\<open>from_crawler\<close> starts exactly one driver and quits none, and the instance it
  returns holds that driver. In every sequence of calls of \<^verbatim>\<open>process_request\<close> and
  \<^verbatim>\<open>spider_closed\<close> that follows, no further driver is started, every action is a
  call on that same driver, and the driver is quit once for each call of
  \<^verbatim>\<open>spider_closed\<close> and at no other time.
\<close>

theorem one_driver_for_life:
  assumes fc: "from_crawler env crawler w0 = (Inr self, w1)"
  shows "self_driver self = Some (drivers_created w0) \<and>
         take (length w0) w1 = w0 \<and>
         drivers_created w1 = Suc (drivers_created w0) \<and>
         filter is_quit (drop (length w0) w1) = [] \<and>
         (\<forall>calls.
            take (length w1) (run_calls env self calls w1) = w1 \<and>
            drivers_created (run_calls env self calls w1) = drivers_created w1 \<and>
            (\<forall>a\<in>set (drop (length w1) (run_calls env self calls w1)).
               on_driver (drivers_created w0) a) \<and>
            length (filter is_quit (drop (length w1) (run_calls env self calls w1))) =
              length (filter is_spider_closed calls))"
proof -
  from from_crawler_returns_getfloat [OF fc] obtain tmo where
    gf: "settings_getfloat crawler ''DOWNLOAD_TIMEOUT'' = Inr tmo" by blast
  from from_crawler_cases [OF gf from_crawler_returns_configured [OF fc] fc] obtain pre c where
    m: "self = \<lparr>self_timeout = tmo, self_driver = Some (drivers_created w0)\<rparr>"
    and w1: "w1 = w0 @ pre @ [c, Signals_connect (Bound_spider_closed self) Signal_spider_closed]"
    and pre: "list_all is_setup pre" and c: "is_creation c" by auto
  from m have d: "self_driver self = Some (drivers_created w0)" by simp
  from c have nq: "\<not> is_quit c" by (cases c) auto
  have "is_setup a \<Longrightarrow> \<not> is_quit a" for a by (cases a) auto
  with pre have pq: "filter is_quit pre = []" by (auto simp: filter_empty_conv list_all_iff)
  have 1: "take (length w0) w1 = w0" unfolding w1 by simp
  have 2: "drivers_created w1 = Suc (drivers_created w0)"
    unfolding w1 using setup_not_creation [OF pre] c by (simp add: drivers_created_def)
  have 3: "filter is_quit (drop (length w0) w1) = []" unfolding w1 using pq nq by simp
  have 4: "take (length w1) (run_calls env self calls w1) = w1 \<and>
            drivers_created (run_calls env self calls w1) = drivers_created w1 \<and>
            (\<forall>a\<in>set (drop (length w1) (run_calls env self calls w1)).
               on_driver (drivers_created w0) a) \<and>
            length (filter is_quit (drop (length w1) (run_calls env self calls w1))) =
              length (filter is_spider_closed calls)" for calls
  proof -
    from run_calls_world [OF d, of env calls w1] obtain ops where
      r: "run_calls env self calls w1 = w1 @ ops" and o: "list_all (on_driver (drivers_created w0)) ops"
      and q: "length (filter is_quit ops) = length (filter is_spider_closed calls)" by blast
    from on_driver_not_creation [OF o]
    have "drivers_created (w1 @ ops) = drivers_created w1" by (simp add: drivers_created_def)
    with o q show ?thesis unfolding r by (simp add: list_all_iff)
  qed
  from d 1 2 3 4 show ?thesis by blast
qed

lemma example_from_crawler_world:
  "from_crawler example_env example_crawler [] = (Inr example_middleware, example_world)"
  by (simp add: example_from_crawler example_world_def)

lemma example_life:
  "run_calls example_env example_middleware
     [Call_process_request (Request \<lparr>url = PStr ''http://b.test/'', cookies = PDict [], meta = Map.empty\<rparr>),
      Call_process_request (SeleniumRequest plain_selenium_request),
      Call_spider_closed]
     example_world =
   example_world @
     [Call 0 (Set_page_load_timeout (PInt 5)),
      Call 0 (Get (PStr ''http://a.test/'')),
      Call 0 Read_browser_state,
      Call 0 Quit]"
  by (simp add: run_defs spider_closed_def example_env_def
      example_middleware_def plain_selenium_request_def)

theorem one_driver_for_life_witness:
  "from_crawler example_env example_crawler [] = (Inr example_middleware, example_world) \<and>
   self_driver example_middleware = Some 0 \<and>
   drivers_created example_world = 1 \<and>
   run_calls example_env example_middleware
     [Call_process_request (Request \<lparr>url = PStr ''http://b.test/'', cookies = PDict [], meta = Map.empty\<rparr>),
      Call_process_request (SeleniumRequest plain_selenium_request),
      Call_spider_closed]
     example_world =
   example_world @
     [Call 0 (Set_page_load_timeout (PInt 5)),
      Call 0 (Get (PStr ''http://a.test/'')),
      Call 0 Read_browser_state,
      Call 0 Quit] \<and>
   length (filter is_quit
     [Call 0 (Set_page_load_timeout (PInt 5)),
      Call 0 (Get (PStr ''http://a.test/'')),
      Call 0 Read_browser_state,
      Call 0 Quit]) = 1"
  using one_driver_for_life [OF example_from_crawler_world] example_from_crawler_world example_life
  by (simp add: drivers_created_def)

text \<open>
  Claim C3, as stated, says that the driver is created lazily, not before it is
  needed. It is not: \<^verbatim>\<open>__init__\<close> starts the driver, so after \<^verbatim>\<open>from_crawler\<close>,
  with no request processed and no call made, a driver has been created.
\<close>

theorem eager_creation_counterexample:
  "\<not> spec_created_lazily []
       (run_calls example_env example_middleware [] (snd (from_crawler example_env example_crawler [])))"
  by (simp add: example_from_crawler spec_created_lazily_def drivers_created_def)

end
